theory Spec2Isabelle
  imports Main "HOL-Library.Word"
begin

section \<open>Notifly: an asynchronous notification pipeline\<close>

text \<open>
  A shallow embedding of the intake service, the worker, the reaper, the recipient rate
  limiter, the Supabase store adapter, the HTTP error handler and the queue server's
  retry-delay function. Calls to the outside world (the database, Redis, the queue, the
  template renderer, the channel provider) are modelled by explicit state and by an
  environment that says, for each call, whether it fails and what the clock and the random
  source return.
\<close>

subsection \<open>Errors (common/errors.go)\<close>

text \<open>
  A Go \<^verbatim>\<open>error\<close> value is one of the four typed errors of the package, a plain error
  (\<^verbatim>\<open>errors.New\<close>, or \<^verbatim>\<open>fmt.Errorf\<close> without \<^verbatim>\<open>%w\<close>), an error that wraps one other error
  (\<^verbatim>\<open>fmt.Errorf("...: %w", err)\<close>; the string is the text before the wrapped error), or an
  error that joins several (\<^verbatim>\<open>errors.Join\<close>).
  The typed errors have no \<^verbatim>\<open>Unwrap\<close> method: they are leaves. \<open>SkipRetry\<close> is the sentinel
  \<^verbatim>\<open>asynq.SkipRetry\<close> of the queue library.
\<close>

datatype go_error =
    ErrorString string
  | WrapError string go_error
  | JoinError "go_error list"
  | NotFoundError string string
  | ValidationError string
  | UnauthorizedError string
  | ProviderError string string
  | SkipRetry

fun join_lines :: "string list \<Rightarrow> string" where
  "join_lines [] = []"
| "join_lines [s] = s"
| "join_lines (s # t # ss) = s @ [CHR 0x0A] @ join_lines (t # ss)"

fun err_Error :: "go_error \<Rightarrow> string" where
  "err_Error (ErrorString s) = s"
| "err_Error (WrapError p e) = p @ err_Error e"
| "err_Error (JoinError es) = join_lines (map err_Error es)"
| "err_Error (NotFoundError r i) =
     r @ '' with id '' @ [CHR 0x27] @ i @ [CHR 0x27] @ '' not found''"
| "err_Error (ValidationError m) = m"
| "err_Error (UnauthorizedError m) = (if m = [] then ''unauthorized'' else m)"
| "err_Error (ProviderError p m) = p @ '' provider error: '' @ m"
| "err_Error SkipRetry = ''skip retry for the task''"

text \<open>
  \<^verbatim>\<open>errors.As(err, &target)\<close> for a target of one of the four typed errors: the error itself
  is tested first, then what it wraps, depth first and from left to right; the first match
  is assigned to the target.
\<close>

datatype error_kind = KNotFound | KValidation | KUnauthorized | KProvider

definition has_kind :: "error_kind \<Rightarrow> go_error \<Rightarrow> bool" where
  "has_kind k e =
     (case e of
        NotFoundError r i \<Rightarrow> k = KNotFound
      | ValidationError m \<Rightarrow> k = KValidation
      | UnauthorizedError m \<Rightarrow> k = KUnauthorized
      | ProviderError p m \<Rightarrow> k = KProvider
      | _ \<Rightarrow> False)"

fun errors_As :: "error_kind \<Rightarrow> go_error \<Rightarrow> go_error option"
  and errors_As_each :: "error_kind \<Rightarrow> go_error list \<Rightarrow> go_error option" where
  "errors_As k e =
     (if has_kind k e then Some e
      else (case e of
              WrapError p e' \<Rightarrow> errors_As k e'
            | JoinError es \<Rightarrow> errors_As_each k es
            | _ \<Rightarrow> None))"
| "errors_As_each k [] = None"
| "errors_As_each k (e # es) =
     (case errors_As k e of Some t \<Rightarrow> Some t | None \<Rightarrow> errors_As_each k es)"

text \<open>A typed or plain error wrapped by \<^verbatim>\<open>fmt.Errorf("...: %w", _)\<close> any number of times.\<close>

fun wrapped :: "string list \<Rightarrow> go_error \<Rightarrow> go_error" where
  "wrapped [] e = e"
| "wrapped (p # ps) e = WrapError p (wrapped ps e)"

text \<open>
  An error chain: an error reached from the first by \<^verbatim>\<open>Unwrap() error\<close> alone, with no joined
  error on the way. The errors that the code of the service builds are chains.
\<close>

fun is_chain :: "go_error \<Rightarrow> bool" where
  "is_chain (WrapError p e) = is_chain e"
| "is_chain (JoinError es) = False"
| "is_chain e = True"

subsection \<open>HTTP error responses (common/response.go)\<close>

record APIError =
  err_code :: nat
  err_message :: string

record APIResponse =
  api_success :: bool
  api_error :: "APIError option"

text \<open>What \<^verbatim>\<open>c.JSON(statusCode, APIResponse{...})\<close> sends: the status and the envelope.\<close>

definition Error :: "nat \<Rightarrow> string \<Rightarrow> nat \<times> APIResponse" where
  "Error statusCode message =
     (statusCode, \<lparr>api_success = False,
                    api_error = Some \<lparr>err_code = statusCode, err_message = message\<rparr>\<rparr>)"

definition StatusNotFound :: nat where "StatusNotFound = 404"
definition StatusBadRequest :: nat where "StatusBadRequest = 400"
definition StatusUnauthorized :: nat where "StatusUnauthorized = 401"
definition StatusBadGateway :: nat where "StatusBadGateway = 502"
definition StatusInternalServerError :: nat where "StatusInternalServerError = 500"

definition HandleError :: "go_error \<Rightarrow> nat \<times> APIResponse" where
  "HandleError err =
     (case errors_As KNotFound err of
        Some notFound \<Rightarrow> Error StatusNotFound (err_Error notFound)
      | None \<Rightarrow>
     (case errors_As KValidation err of
        Some validation \<Rightarrow> Error StatusBadRequest (err_Error validation)
      | None \<Rightarrow>
     (case errors_As KUnauthorized err of
        Some unauthorized \<Rightarrow> Error StatusUnauthorized (err_Error unauthorized)
      | None \<Rightarrow>
     (case errors_As KProvider err of
        Some provider \<Rightarrow> Error StatusBadGateway ''notification delivery failed''
      | None \<Rightarrow> Error StatusInternalServerError ''internal server error''))))"

subsection \<open>Domain model (domain/notification)\<close>

text \<open>
  Statuses, channels and notification types are Go strings. A \<^verbatim>\<open>time.Time\<close> is its count of
  nanoseconds since the epoch (\<^verbatim>\<open>UnixNano\<close>). Template data, a \<^verbatim>\<open>map[string]any\<close>, is kept
  as a list of key-value pairs, \<open>None\<close> for the nil map.
\<close>

type_synonym NotificationStatus = string
type_synonym Channel = string
type_synonym NotificationType = string
type_synonym timestamp = int
type_synonym template_data = "(string \<times> string) list"

definition StatusQueued :: NotificationStatus where "StatusQueued = ''queued''"
definition StatusProcessing :: NotificationStatus where "StatusProcessing = ''processing''"
definition StatusSent :: NotificationStatus where "StatusSent = ''sent''"
definition StatusFailed :: NotificationStatus where "StatusFailed = ''failed''"
definition StatusDelivered :: NotificationStatus where "StatusDelivered = ''delivered''"
definition StatusBounced :: NotificationStatus where "StatusBounced = ''bounced''"
definition StatusOpened :: NotificationStatus where "StatusOpened = ''opened''"

record NotificationLog =
  log_ID :: string
  log_IdempotencyKey :: string
  log_Channel :: string
  log_Type :: string
  log_Recipient :: string
  log_TemplateData :: "template_data option"
  log_ProviderID :: string
  log_Status :: NotificationStatus
  log_ErrorMessage :: string
  log_CreatedAt :: timestamp
  log_UpdatedAt :: timestamp
  log_SentAt :: "timestamp option"
  log_DeliveredAt :: "timestamp option"
  log_OpenedAt :: "timestamp option"
  log_BouncedAt :: "timestamp option"

definition validTypes :: "NotificationType list" where
  "validTypes =
     [''confirm_signup'', ''invite_user'', ''magic_link'', ''change_email'',
      ''reset_password'', ''reauthentication'', ''password_changed'', ''email_changed'',
      ''phone_changed'', ''identity_linked'', ''identity_unlinked'']"

definition IsValidType :: "NotificationType \<Rightarrow> bool" where
  "IsValidType t = (t \<in> set validTypes)"

record SendRequest =
  req_Channel :: Channel
  req_Type :: NotificationType
  req_To :: string
  req_Data :: "template_data option"
  req_IdempotencyKey :: string

record SendResponse =
  resp_ID :: string
  resp_IdempotencyKey :: string
  resp_Channel :: string
  resp_Status :: string

record Message =
  msg_To :: string
  msg_Subject :: string
  msg_HTML :: string
  msg_Text :: string

subsection \<open>The process: log output and wall clock\<close>

text \<open>
  Every function of the pipeline runs in a process that has the default \<^verbatim>\<open>slog\<close> logger
  and a wall clock. A log record keeps its level, its message and its string attributes
  (durations and counts are left out). Each reading of the environment (the clock, a
  reply of a remote service, the random source) takes one \<open>step\<close>; what the clock shows at
  each step is arbitrary and given by \<open>now_at\<close>. The state of the services a process talks
  to extends this record.
\<close>

datatype level = LevelInfo | LevelWarn | LevelError

type_synonym log_record = "level \<times> string \<times> (string \<times> string) list"

record process =
  slog :: "log_record list"
  now_at :: "nat \<Rightarrow> timestamp"
  step :: nat

definition slog_Info ::
  "string \<Rightarrow> (string \<times> string) list \<Rightarrow> 'a process_scheme \<Rightarrow> 'a process_scheme" where
  "slog_Info msg attrs w = w\<lparr>slog := slog w @ [(LevelInfo, msg, attrs)]\<rparr>"

definition slog_Warn ::
  "string \<Rightarrow> (string \<times> string) list \<Rightarrow> 'a process_scheme \<Rightarrow> 'a process_scheme" where
  "slog_Warn msg attrs w = w\<lparr>slog := slog w @ [(LevelWarn, msg, attrs)]\<rparr>"

definition slog_Error ::
  "string \<Rightarrow> (string \<times> string) list \<Rightarrow> 'a process_scheme \<Rightarrow> 'a process_scheme" where
  "slog_Error msg attrs w = w\<lparr>slog := slog w @ [(LevelError, msg, attrs)]\<rparr>"

definition tick :: "'a process_scheme \<Rightarrow> 'a process_scheme" where
  "tick w = w\<lparr>step := Suc (step w)\<rparr>"

definition time_Now :: "'a process_scheme \<Rightarrow> timestamp \<times> 'a process_scheme" where
  "time_Now w = (now_at w (step w), tick w)"

subsection \<open>Ports (domain/notification: store.go, service.go, ratelimit.go, provider.go)\<close>

text \<open>
  A Go interface is a record of functions that take the state of the world and return
  their results with the new state. An operation returning \<^verbatim>\<open>(x, error)\<close> returns the pair of
  \<open>x\<close> and \<open>None\<close> (nil) or \<open>Some err\<close>; a pointer result is an option. \<^verbatim>\<open>Create\<close> fills in the
  log it is given, so it returns the log as well. Of the store, the operations used by the
  intake service, the worker and the reaper are modelled.
\<close>

record 'a NotificationStore =
  Create :: "NotificationLog \<Rightarrow> 'a process_scheme \<Rightarrow>
               (NotificationLog \<times> go_error option) \<times> 'a process_scheme"
  GetByID :: "string \<Rightarrow> 'a process_scheme \<Rightarrow>
               (NotificationLog option \<times> go_error option) \<times> 'a process_scheme"
  GetByIdempotencyKey :: "string \<Rightarrow> 'a process_scheme \<Rightarrow>
               (NotificationLog option \<times> go_error option) \<times> 'a process_scheme"
  UpdateStatus :: "string \<Rightarrow> NotificationStatus \<Rightarrow> string \<Rightarrow> string \<Rightarrow> 'a process_scheme \<Rightarrow>
               go_error option \<times> 'a process_scheme"
  ListStale :: "timestamp \<Rightarrow> int \<Rightarrow> 'a process_scheme \<Rightarrow>
               (NotificationLog list \<times> go_error option) \<times> 'a process_scheme"

record 'a Enqueuer =
  EnqueueSendNotification :: "string \<Rightarrow> 'a process_scheme \<Rightarrow> go_error option \<times> 'a process_scheme"

record 'a RecipientRateLimiter =
  Allow :: "string \<Rightarrow> 'a process_scheme \<Rightarrow> (bool \<times> go_error option) \<times> 'a process_scheme"

record 'a Provider =
  Send :: "Message \<Rightarrow> 'a process_scheme \<Rightarrow> (string \<times> go_error option) \<times> 'a process_scheme"
  prov_Channel :: Channel

record 'a TemplateRenderer =
  Render :: "NotificationType \<Rightarrow> template_data option \<Rightarrow> 'a process_scheme \<Rightarrow>
               ((string \<times> string \<times> string) \<times> go_error option) \<times> 'a process_scheme"

subsection \<open>Intake service (domain/notification/service.go)\<close>

record 'a Service =
  svc_store :: "'a NotificationStore"
  svc_enqueuer :: "'a Enqueuer"
  svc_rateLimiter :: "'a RecipientRateLimiter option"

definition NewService ::
  "'a NotificationStore \<Rightarrow> 'a Enqueuer \<Rightarrow> 'a RecipientRateLimiter option \<Rightarrow> 'a Service" where
  "NewService store enqueuer rateLimiter =
     \<lparr>svc_store = store, svc_enqueuer = enqueuer, svc_rateLimiter = rateLimiter\<rparr>"

text \<open>
  \<^verbatim>\<open>Service.Enqueue\<close> is written in three parts, each the rest of the Go function after an
  early return: \<open>Enqueue_create\<close> creates the log and enqueues the task, \<open>Enqueue_rateLimit\<close>
  runs the rate-limit check before it, \<open>Enqueue\<close> validates and looks the idempotency key up
  before that.
\<close>

definition Enqueue_create ::
  "'a Service \<Rightarrow> SendRequest \<Rightarrow> 'a process_scheme \<Rightarrow>
     (go_error + SendResponse) \<times> 'a process_scheme" where
  "Enqueue_create s req w =
     (let notifLog = \<lparr>log_ID = '''', log_IdempotencyKey = req_IdempotencyKey req,
                       log_Channel = req_Channel req, log_Type = req_Type req,
                       log_Recipient = req_To req, log_TemplateData = req_Data req,
                       log_ProviderID = '''', log_Status = StatusQueued, log_ErrorMessage = '''',
                       log_CreatedAt = 0, log_UpdatedAt = 0, log_SentAt = None,
                       log_DeliveredAt = None, log_OpenedAt = None, log_BouncedAt = None\<rparr>
      in case Create (svc_store s) notifLog w of
           ((notifLog, Some err), w1) \<Rightarrow>
             (Inl (WrapError ''creating notification log: '' err), w1)
         | ((notifLog, None), w1) \<Rightarrow>
             (case EnqueueSendNotification (svc_enqueuer s) (log_ID notifLog) w1 of
                (Some err, w2) \<Rightarrow>
                  (case UpdateStatus (svc_store s) (log_ID notifLog) StatusFailed ''''
                          (''failed to enqueue: '' @ err_Error err) w2 of
                     (_, w3) \<Rightarrow> (Inl (WrapError ''enqueuing notification: '' err), w3))
              | (None, w2) \<Rightarrow>
                  (Inr \<lparr>resp_ID = log_ID notifLog,
                        resp_IdempotencyKey = log_IdempotencyKey notifLog,
                        resp_Channel = req_Channel req,
                        resp_Status = StatusQueued\<rparr>,
                   slog_Info ''notification enqueued''
                     [(''id'', log_ID notifLog), (''channel'', req_Channel req),
                      (''type'', req_Type req), (''to'', req_To req)] w2)))"

definition Enqueue_rateLimit ::
  "'a Service \<Rightarrow> SendRequest \<Rightarrow> 'a process_scheme \<Rightarrow>
     (go_error + SendResponse) \<times> 'a process_scheme" where
  "Enqueue_rateLimit s req w =
     (case svc_rateLimiter s of
        None \<Rightarrow> Enqueue_create s req w
      | Some rateLimiter \<Rightarrow>
          (case Allow rateLimiter (req_To req) w of
             ((allowed, Some err), w1) \<Rightarrow>
               Enqueue_create s req
                 (slog_Error ''rate limit check failed, proceeding without limit''
                    [(''recipient'', req_To req), (''error'', err_Error err)] w1)
           | ((allowed, None), w1) \<Rightarrow>
               if \<not> allowed
               then (Inl (ValidationError (''rate limit exceeded for recipient: '' @ req_To req)),
                     w1)
               else Enqueue_create s req w1))"

definition Enqueue ::
  "'a Service \<Rightarrow> SendRequest \<Rightarrow> 'a process_scheme \<Rightarrow>
     (go_error + SendResponse) \<times> 'a process_scheme" where
  "Enqueue s req w =
     (if \<not> IsValidType (req_Type req)
      then (Inl (ValidationError (''unsupported notification type: '' @ req_Type req)), w)
      else if req_IdempotencyKey req \<noteq> ''''
      then (case GetByIdempotencyKey (svc_store s) (req_IdempotencyKey req) w of
              ((existing, err), w1) \<Rightarrow>
                (let w2 = (case err of
                             Some e \<Rightarrow>
                               slog_Error ''idempotency check failed''
                                 [(''key'', req_IdempotencyKey req), (''error'', err_Error e)] w1
                           | None \<Rightarrow> w1)
                 in case existing of
                      Some existing \<Rightarrow>
                        (Inr \<lparr>resp_ID = log_ID existing,
                              resp_IdempotencyKey = log_IdempotencyKey existing,
                              resp_Channel = log_Channel existing,
                              resp_Status = log_Status existing\<rparr>,
                         slog_Info
                           (''idempotent request '' @ [CHR 0xE2, CHR 0x80, CHR 0x94]
                              @ '' returning existing result'')
                           [(''idempotency_key'', req_IdempotencyKey req),
                            (''existing_id'', log_ID existing),
                            (''existing_status'', log_Status existing)] w2)
                    | None \<Rightarrow> Enqueue_rateLimit s req w2))
      else Enqueue_rateLimit s req w)"

subsection \<open>Worker (domain/notification/worker.go)\<close>

record 'a Worker =
  wk_store :: "'a NotificationStore"
  wk_renderer :: "'a TemplateRenderer"
  wk_providers :: "Channel \<Rightarrow> 'a Provider option"

fun NewWorker_providers ::
  "'a Provider list \<Rightarrow> (Channel \<Rightarrow> 'a Provider option) \<Rightarrow> (Channel \<Rightarrow> 'a Provider option)" where
  "NewWorker_providers [] pm = pm"
| "NewWorker_providers (p # ps) pm = NewWorker_providers ps (pm(prov_Channel p \<mapsto> p))"

definition NewWorker ::
  "'a NotificationStore \<Rightarrow> 'a TemplateRenderer \<Rightarrow> 'a Provider list \<Rightarrow> 'a Worker" where
  "NewWorker store renderer providers =
     \<lparr>wk_store = store, wk_renderer = renderer,
      wk_providers = NewWorker_providers providers Map.empty\<rparr>"

text \<open>
  \<^verbatim>\<open>Worker.ProcessTask\<close>, again split at its early returns: \<open>ProcessTask_send\<close> is the function
  from the rendering of the template on, for a record whose type is valid and whose channel
  has a provider. The returned error is \<open>None\<close> for nil. The time read at the start of the
  function serves only the duration attribute of two log lines and is left out with it.
\<close>

definition ProcessTask_send ::
  "'a Worker \<Rightarrow> string \<Rightarrow> NotificationLog \<Rightarrow> 'a Provider \<Rightarrow> 'a process_scheme \<Rightarrow>
     go_error option \<times> 'a process_scheme" where
  "ProcessTask_send wk logID notifLog provider w =
     (let channel = log_Channel notifLog; notifType = log_Type notifLog
      in case Render (wk_renderer wk) notifType (log_TemplateData notifLog) w of
           (((subject, html, text), Some err), w1) \<Rightarrow>
             (case UpdateStatus (wk_store wk) logID StatusFailed ''''
                     (''rendering template: '' @ err_Error err) w1 of
                (_, w2) \<Rightarrow>
                  (Some (WrapError (''rendering template '' @ notifType @ '': '') err), w2))
         | (((subject, html, text), None), w1) \<Rightarrow>
             (let msg = \<lparr>msg_To = log_Recipient notifLog, msg_Subject = subject,
                          msg_HTML = html, msg_Text = text\<rparr>
              in case Send provider msg w1 of
                   ((providerID, Some err), w2) \<Rightarrow>
                     (case UpdateStatus (wk_store wk) logID StatusFailed ''''
                             (''provider error: '' @ err_Error err) w2 of
                        (_, w3) \<Rightarrow>
                          (Some (ProviderError channel (err_Error err)),
                           slog_Error ''notification delivery failed''
                             [(''log_id'', logID), (''channel'', channel), (''type'', notifType),
                              (''to'', log_Recipient notifLog), (''error'', err_Error err)] w3))
                 | ((providerID, None), w2) \<Rightarrow>
                     (case UpdateStatus (wk_store wk) logID StatusSent providerID '''' w2 of
                        (err, w3) \<Rightarrow>
                          (let w4 = (case err of
                                       Some e \<Rightarrow>
                                         slog_Error ''failed to update status to sent''
                                           [(''log_id'', logID), (''error'', err_Error e)] w3
                                     | None \<Rightarrow> w3)
                           in (None,
                               slog_Info ''notification sent''
                                 [(''log_id'', logID), (''channel'', channel),
                                  (''type'', notifType), (''to'', log_Recipient notifLog),
                                  (''provider_id'', providerID)] w4)))))"

definition ProcessTask ::
  "'a Worker \<Rightarrow> string \<Rightarrow> 'a process_scheme \<Rightarrow> go_error option \<times> 'a process_scheme" where
  "ProcessTask wk logID w =
     (case GetByID (wk_store wk) logID w of
        ((notifLog, Some err), w1) \<Rightarrow>
          (Some (WrapError (''fetching notification log '' @ logID @ '': '') err), w1)
      | ((None, None), w1) \<Rightarrow>
          (Some (ErrorString (''notification log not found: '' @ logID)),
           slog_Error ''notification log not found'' [(''log_id'', logID)] w1)
      | ((Some notifLog, None), w1) \<Rightarrow>
          (case UpdateStatus (wk_store wk) logID StatusProcessing '''' '''' w1 of
             (err, w2) \<Rightarrow>
               (let w3 = (case err of
                            Some e \<Rightarrow>
                              slog_Error ''failed to update status to processing''
                                [(''log_id'', logID), (''error'', err_Error e)] w2
                          | None \<Rightarrow> w2);
                    channel = log_Channel notifLog;
                    notifType = log_Type notifLog
                in if \<not> IsValidType notifType
                   then (let errMsg = ''unsupported notification type: '' @ notifType
                         in case UpdateStatus (wk_store wk) logID StatusFailed '''' errMsg w3 of
                              (_, w4) \<Rightarrow> (Some (ValidationError errMsg), w4))
                   else (case wk_providers wk channel of
                           None \<Rightarrow>
                             (let errMsg = ''unsupported channel: '' @ channel
                              in case UpdateStatus (wk_store wk) logID StatusFailed '''' errMsg
                                        w3 of
                                   (_, w4) \<Rightarrow> (Some (ValidationError errMsg), w4))
                         | Some provider \<Rightarrow> ProcessTask_send wk logID notifLog provider w3))))"

subsection \<open>Reaper (domain/notification/reaper.go)\<close>

text \<open>Durations are counts of nanoseconds.\<close>

record ReaperConfig =
  Interval :: int
  StaleThreshold :: int
  BatchSize :: int

record 'a Reaper =
  rp_store :: "'a NotificationStore"
  rp_enqueuer :: "'a Enqueuer"
  rp_config :: ReaperConfig

definition Minute :: int where
  "Minute = 60 * 1000000000"

definition NewReaper ::
  "'a NotificationStore \<Rightarrow> 'a Enqueuer \<Rightarrow> ReaperConfig \<Rightarrow> 'a Reaper" where
  "NewReaper store enqueuer cfg =
     (let cfg1 = (if Interval cfg \<le> 0 then cfg\<lparr>Interval := 5 * Minute\<rparr> else cfg);
          cfg2 = (if StaleThreshold cfg1 \<le> 0 then cfg1\<lparr>StaleThreshold := 10 * Minute\<rparr>
                  else cfg1);
          cfg3 = (if BatchSize cfg2 \<le> 0 then cfg2\<lparr>BatchSize := 50\<rparr> else cfg2)
      in \<lparr>rp_store = store, rp_enqueuer = enqueuer, rp_config = cfg3\<rparr>)"

text \<open>
  One iteration of the loop of \<^verbatim>\<open>Reaper.sweep\<close> over the stale logs: the result says whether
  the record was recovered (\<^verbatim>\<open>recovered++\<close>) or the iteration ended at a \<^verbatim>\<open>continue\<close>. The age
  attribute of the last log line is left out. \<^verbatim>\<open>Reaper.Run\<close>, the ticker loop that calls
  \<^verbatim>\<open>sweep\<close>, is not modelled.
\<close>

definition sweep_record ::
  "'a Reaper \<Rightarrow> NotificationLog \<Rightarrow> 'a process_scheme \<Rightarrow> bool \<times> 'a process_scheme" where
  "sweep_record r notifLog w =
     (case UpdateStatus (rp_store r) (log_ID notifLog) StatusQueued '''' '''' w of
        (Some err, w1) \<Rightarrow>
          (False,
           slog_Error ''reaper: failed to reset status''
             [(''log_id'', log_ID notifLog), (''error'', err_Error err)] w1)
      | (None, w1) \<Rightarrow>
          (case EnqueueSendNotification (rp_enqueuer r) (log_ID notifLog) w1 of
             (Some err, w2) \<Rightarrow>
               (False,
                slog_Error ''reaper: failed to re-enqueue task''
                  [(''log_id'', log_ID notifLog), (''error'', err_Error err)] w2)
           | (None, w2) \<Rightarrow>
               (True,
                slog_Info ''reaper: recovered stale task''
                  [(''log_id'', log_ID notifLog),
                   (''original_status'', log_Status notifLog)] w2)))"

fun sweep_loop ::
  "'a Reaper \<Rightarrow> NotificationLog list \<Rightarrow> nat \<Rightarrow> 'a process_scheme \<Rightarrow> nat \<times> 'a process_scheme" where
  "sweep_loop r [] recovered w = (recovered, w)"
| "sweep_loop r (notifLog # staleLogs) recovered w =
     (case sweep_record r notifLog w of
        (True, w1) \<Rightarrow> sweep_loop r staleLogs (Suc recovered) w1
      | (False, w1) \<Rightarrow> sweep_loop r staleLogs recovered w1)"

definition sweep :: "'a Reaper \<Rightarrow> 'a process_scheme \<Rightarrow> 'a process_scheme" where
  "sweep r w =
     (case time_Now w of
        (now, w1) \<Rightarrow>
          (let olderThan = now - StaleThreshold (rp_config r)
           in case ListStale (rp_store r) olderThan (BatchSize (rp_config r)) w1 of
                ((staleLogs, Some err), w2) \<Rightarrow>
                  slog_Error ''reaper: failed to list stale tasks''
                    [(''error'', err_Error err)] w2
              | ((staleLogs, None), w2) \<Rightarrow>
                  if length staleLogs = 0 then w2
                  else (case sweep_loop r staleLogs 0
                               (slog_Warn ''reaper: found stale tasks'' [] w2) of
                          (recovered, w3) \<Rightarrow>
                            if recovered > 0
                            then slog_Info ''reaper: sweep complete'' [] w3
                            else w3)))"

subsection \<open>The services: database table, task queue, rate-limit store\<close>

text \<open>
  A row of the table \<^verbatim>\<open>notification_logs\<close>, which is also the \<^verbatim>\<open>supabaseRow\<close> sent to and
  received from PostgREST. Nullable columns and fields with \<^verbatim>\<open>omitempty\<close> pointers are
  options; \<^verbatim>\<open>created_at\<close> and \<^verbatim>\<open>updated_at\<close> are absent from a row that is sent for
  insertion and present in every row of the table.
\<close>

record supabaseRow =
  row_ID :: string
  row_IdempotencyKey :: "string option"
  row_Channel :: string
  row_Type :: string
  row_Recipient :: string
  row_TemplateData :: "template_data option"
  row_ProviderID :: "string option"
  row_Status :: string
  row_ErrorMessage :: "string option"
  row_CreatedAt :: "timestamp option"
  row_UpdatedAt :: "timestamp option"
  row_SentAt :: "timestamp option"
  row_DeliveredAt :: "timestamp option"
  row_OpenedAt :: "timestamp option"
  row_BouncedAt :: "timestamp option"

text \<open>
  A Redis sorted set is a list of members with their scores, no member twice. A score is
  a double; every score here is the double nearest to an integer count of nanoseconds,
  which is itself an integer, and is kept as that integer.
\<close>

type_synonym zset = "(string \<times> int) list"

record bucket =
  members :: zset
  ttl :: "int option"

text \<open>
  The world of the two processes: the process itself, the table, the tasks of the queue
  \<^verbatim>\<open>notifications\<close> (the log id of the payload and the maximal number of retries), the sorted
  sets of Redis by key, each with its time to live, and what the environment answers at each step:
  whether the remote call made at that step fails (and with which error), the UUID the
  database generates, the bytes the random source returns.
\<close>

record world = process +
  table :: "supabaseRow list"
  tasks :: "(string \<times> int) list"
  buckets :: "string \<Rightarrow> bucket"
  fault_at :: "nat \<Rightarrow> go_error option"
  uuid_at :: "nat \<Rightarrow> string"
  rand_at :: "nat \<Rightarrow> 8 word list"

subsection \<open>Supabase store (infra/store/supabase.go)\<close>

text \<open>
  The table as PostgREST serves it, following the schema of \<^verbatim>\<open>notification_logs\<close>:
  \<^verbatim>\<open>id\<close> is the primary key with default \<^verbatim>\<open>gen_random_uuid()\<close>, \<^verbatim>\<open>idempotency_key\<close> is
  \<^verbatim>\<open>UNIQUE\<close> (several rows may have none), \<^verbatim>\<open>created_at\<close> and \<^verbatim>\<open>updated_at\<close> default to
  \<^verbatim>\<open>NOW()\<close>. An insert that violates a constraint is an error and leaves the table as it is;
  otherwise the row is added and returned (\<^verbatim>\<open>Prefer: return=representation\<close>).
\<close>

definition db_insert ::
  "string \<Rightarrow> timestamp \<Rightarrow> supabaseRow \<Rightarrow> supabaseRow list \<Rightarrow>
     go_error + (supabaseRow \<times> supabaseRow list)" where
  "db_insert uuid now row tbl =
     (let new = row\<lparr>row_ID := (if row_ID row = '''' then uuid else row_ID row),
                     row_CreatedAt := (case row_CreatedAt row of None \<Rightarrow> Some now | Some t \<Rightarrow> Some t),
                     row_UpdatedAt := (case row_UpdatedAt row of None \<Rightarrow> Some now | Some t \<Rightarrow> Some t)\<rparr>
      in if row_ID new \<in> row_ID ` set tbl
         then Inl (ErrorString ''duplicate key value violates unique constraint notification_logs_pkey'')
         else if row_IdempotencyKey new \<noteq> None
                 \<and> row_IdempotencyKey new \<in> row_IdempotencyKey ` set tbl
         then Inl (ErrorString
                ''duplicate key value violates unique constraint notification_logs_idempotency_key_key'')
         else Inr (new, tbl @ [new]))"

text \<open>
  The body of an update request is a \<^verbatim>\<open>map[string]any\<close> from column names to values: a list of
  pairs with distinct keys. \<open>db_update\<close> sets these columns in every row the filter selects.
\<close>

datatype column_value = Text string | Timestamp timestamp

fun set_column :: "string \<times> column_value \<Rightarrow> supabaseRow \<Rightarrow> supabaseRow" where
  "set_column (c, Text v) r =
     (if c = ''status'' then r\<lparr>row_Status := v\<rparr>
      else if c = ''provider_id'' then r\<lparr>row_ProviderID := Some v\<rparr>
      else if c = ''error_message'' then r\<lparr>row_ErrorMessage := Some v\<rparr>
      else r)"
| "set_column (c, Timestamp t) r =
     (if c = ''updated_at'' then r\<lparr>row_UpdatedAt := Some t\<rparr>
      else if c = ''sent_at'' then r\<lparr>row_SentAt := Some t\<rparr>
      else if c = ''delivered_at'' then r\<lparr>row_DeliveredAt := Some t\<rparr>
      else if c = ''opened_at'' then r\<lparr>row_OpenedAt := Some t\<rparr>
      else if c = ''bounced_at'' then r\<lparr>row_BouncedAt := Some t\<rparr>
      else r)"

definition db_update ::
  "(string \<times> column_value) list \<Rightarrow> (supabaseRow \<Rightarrow> bool) \<Rightarrow> supabaseRow list \<Rightarrow> supabaseRow list" where
  "db_update update sel tbl = map (\<lambda>r. if sel r then fold set_column update r else r) tbl"

definition rowToLog :: "supabaseRow \<Rightarrow> NotificationLog" where
  "rowToLog row =
     \<lparr>log_ID = row_ID row,
      log_IdempotencyKey = (case row_IdempotencyKey row of Some k \<Rightarrow> k | None \<Rightarrow> ''''),
      log_Channel = row_Channel row,
      log_Type = row_Type row,
      log_Recipient = row_Recipient row,
      log_TemplateData = row_TemplateData row,
      log_ProviderID = (case row_ProviderID row of Some p \<Rightarrow> p | None \<Rightarrow> ''''),
      log_Status = row_Status row,
      log_ErrorMessage = (case row_ErrorMessage row of Some m \<Rightarrow> m | None \<Rightarrow> ''''),
      log_CreatedAt = (case row_CreatedAt row of Some t \<Rightarrow> t | None \<Rightarrow> 0),
      log_UpdatedAt = (case row_UpdatedAt row of Some t \<Rightarrow> t | None \<Rightarrow> 0),
      log_SentAt = row_SentAt row,
      log_DeliveredAt = row_DeliveredAt row,
      log_OpenedAt = row_OpenedAt row,
      log_BouncedAt = row_BouncedAt row\<rparr>"

text \<open>
  Each operation makes one request. When the request fails (\<open>fault_at\<close> at this step) the
  operation returns the wrapped error and the table is as before. The replies of
  PostgREST are taken to parse. In the row that \<^verbatim>\<open>Create\<close> sends, \<^verbatim>\<open>idempotency_key\<close> and
  \<^verbatim>\<open>template_data\<close> are \<^verbatim>\<open>omitempty\<close>: an empty key and an empty or nil map are left out,
  and the column is NULL.
\<close>

definition SupabaseStore_Create ::
  "NotificationLog \<Rightarrow> world \<Rightarrow> (NotificationLog \<times> go_error option) \<times> world" where
  "SupabaseStore_Create log w =
     (let row = \<lparr>row_ID = '''',
                  row_IdempotencyKey =
                    (if log_IdempotencyKey log \<noteq> '''' then Some (log_IdempotencyKey log) else None),
                  row_Channel = log_Channel log, row_Type = log_Type log,
                  row_Recipient = log_Recipient log,
                  row_TemplateData =
                    (if log_TemplateData log = Some [] then None else log_TemplateData log),
                  row_ProviderID = None, row_Status = log_Status log, row_ErrorMessage = None,
                  row_CreatedAt = None, row_UpdatedAt = None, row_SentAt = None,
                  row_DeliveredAt = None, row_OpenedAt = None, row_BouncedAt = None\<rparr>;
          k = step w; w1 = tick w
      in case fault_at w k of
           Some err \<Rightarrow> ((log, Some (WrapError ''inserting notification log: '' err)), w1)
         | None \<Rightarrow>
             (case db_insert (uuid_at w k) (now_at w k) row (table w) of
                Inl err \<Rightarrow> ((log, Some (WrapError ''inserting notification log: '' err)), w1)
              | Inr (result, tbl) \<Rightarrow>
                  ((log\<lparr>log_ID := row_ID result,
                        log_CreatedAt := (case row_CreatedAt result of Some t \<Rightarrow> t
                                          | None \<Rightarrow> log_CreatedAt log),
                        log_UpdatedAt := (case row_UpdatedAt result of Some t \<Rightarrow> t
                                          | None \<Rightarrow> log_UpdatedAt log)\<rparr>, None),
                   w1\<lparr>table := tbl\<rparr>)))"

text \<open>\<^verbatim>\<open>Single()\<close> asks for exactly one row: any other number of rows is an error.\<close>

definition SupabaseStore_GetByID ::
  "string \<Rightarrow> world \<Rightarrow> (NotificationLog option \<times> go_error option) \<times> world" where
  "SupabaseStore_GetByID i w =
     (let k = step w; w1 = tick w
      in case fault_at w k of
           Some err \<Rightarrow> ((None, Some (WrapError ''fetching notification log: '' err)), w1)
         | None \<Rightarrow>
             (case filter (\<lambda>r. row_ID r = i) (table w) of
                [row] \<Rightarrow> ((Some (rowToLog row), None), w1)
              | _ \<Rightarrow>
                  ((None,
                    Some (WrapError ''fetching notification log: ''
                            (ErrorString ''(PGRST116) JSON object requested, multiple (or no) rows returned''))),
                   w1)))"

definition SupabaseStore_GetByIdempotencyKey ::
  "string \<Rightarrow> world \<Rightarrow> (NotificationLog option \<times> go_error option) \<times> world" where
  "SupabaseStore_GetByIdempotencyKey key w =
     (let k = step w; w1 = tick w
      in case fault_at w k of
           Some err \<Rightarrow> ((None, Some (WrapError ''fetching by idempotency key: '' err)), w1)
         | None \<Rightarrow>
             (case filter (\<lambda>r. row_IdempotencyKey r = Some key) (table w) of
                [] \<Rightarrow> ((None, None), w1)
              | row # rows \<Rightarrow> ((Some (rowToLog row), None), w1)))"

definition UpdateStatus_body ::
  "timestamp \<Rightarrow> NotificationStatus \<Rightarrow> string \<Rightarrow> string \<Rightarrow> (string \<times> column_value) list" where
  "UpdateStatus_body now status providerID errMsg =
     [(''status'', Text status), (''updated_at'', Timestamp now)]
     @ (if providerID \<noteq> '''' then [(''provider_id'', Text providerID)] else [])
     @ (if errMsg \<noteq> '''' then [(''error_message'', Text errMsg)] else [])
     @ (if status = StatusSent then [(''sent_at'', Timestamp now)] else [])"

definition SupabaseStore_UpdateStatus ::
  "string \<Rightarrow> NotificationStatus \<Rightarrow> string \<Rightarrow> string \<Rightarrow> world \<Rightarrow> go_error option \<times> world" where
  "SupabaseStore_UpdateStatus i status providerID errMsg w =
     (let k = step w; w1 = tick w;
          now = now_at w k;
          update = UpdateStatus_body now status providerID errMsg
      in case fault_at w k of
           Some err \<Rightarrow> (Some (WrapError ''updating notification status: '' err), w1)
         | None \<Rightarrow> (None, w1\<lparr>table := db_update update (\<lambda>r. row_ID r = i) (table w)\<rparr>))"

text \<open>
  The stale rows, oldest first (rows of equal \<^verbatim>\<open>updated_at\<close> in the order of the table), at
  most \<open>limit\<close> of them.
\<close>

definition SupabaseStore_ListStale ::
  "timestamp \<Rightarrow> int \<Rightarrow> world \<Rightarrow> (NotificationLog list \<times> go_error option) \<times> world" where
  "SupabaseStore_ListStale olderThan limit w =
     (let limit = (if limit \<le> 0 then 50 else limit);
          k = step w; w1 = tick w
      in case fault_at w k of
           Some err \<Rightarrow> (([], Some (WrapError ''listing stale notifications: '' err)), w1)
         | None \<Rightarrow>
             (let rows = filter (\<lambda>r. row_Status r \<in> {StatusQueued, StatusProcessing}
                                      \<and> (case row_UpdatedAt r of Some t \<Rightarrow> t < olderThan
                                          | None \<Rightarrow> False))
                           (table w);
                  ordered = sort_key (\<lambda>r. case row_UpdatedAt r of Some t \<Rightarrow> t | None \<Rightarrow> 0) rows
              in ((map rowToLog (take (nat limit) ordered), None), w1)))"

definition SupabaseStore :: "unit world_ext NotificationStore" where
  "SupabaseStore =
     \<lparr>Create = SupabaseStore_Create,
      GetByID = SupabaseStore_GetByID,
      GetByIdempotencyKey = SupabaseStore_GetByIdempotencyKey,
      UpdateStatus = SupabaseStore_UpdateStatus,
      ListStale = SupabaseStore_ListStale\<rparr>"

subsection \<open>Queue client (infra/queue/asynq.go, cmd/*/main.go)\<close>

text \<open>
  \<^verbatim>\<open>queueEnqueuer.EnqueueSendNotification\<close> puts a task with the log id as payload and the
  option \<^verbatim>\<open>asynq.MaxRetry(maxRetry)\<close>, the configured number of retries, on the queue
  \<^verbatim>\<open>notifications\<close>; the queue reads a negative number of retries as 0, which makes no
  difference to \<open>asynq_retries\<close> below. Encoding the payload does not fail.
\<close>

definition queue_EnqueueSendNotification :: "int \<Rightarrow> string \<Rightarrow> world \<Rightarrow> go_error option \<times> world" where
  "queue_EnqueueSendNotification maxRetry logID w =
     (let k = step w; w1 = tick w
      in case fault_at w k of
           Some err \<Rightarrow> (Some (WrapError ''enqueuing task: '' err), w1)
         | None \<Rightarrow> (None, w1\<lparr>tasks := tasks w @ [(logID, maxRetry)]\<rparr>))"

definition queueEnqueuer :: "int \<Rightarrow> unit world_ext Enqueuer" where
  "queueEnqueuer maxRetry = \<lparr>EnqueueSendNotification = queue_EnqueueSendNotification maxRetry\<rparr>"

subsection \<open>Recipient rate limiter (infra/ratelimit/redis.go)\<close>

record RedisRecipientLimiter =
  lim_maxPerHour :: int
  lim_window :: int

definition Hour :: int where
  "Hour = 60 * Minute"

definition NewRedisRecipientLimiter :: "int \<Rightarrow> RedisRecipientLimiter" where
  "NewRedisRecipientLimiter maxPerHour = \<lparr>lim_maxPerHour = maxPerHour, lim_window = Hour\<rparr>"

text \<open>
  The conversion \<^verbatim>\<open>float64(n)\<close> of a 64-bit integer, which is also how Redis reads the decimal
  text of an integer as a score: the nearest number with 53 significant bits, a tie going
  to the even one. \<open>bits_Len\<close> is the number of bits of a number (\<^verbatim>\<open>bits.Len64\<close>).
\<close>

fun bits_Len :: "nat \<Rightarrow> nat" where
  "bits_Len n = (if n = 0 then 0 else Suc (bits_Len (n div 2)))"

definition float64 :: "int \<Rightarrow> int" where
  "float64 x =
     (let a = nat \<bar>x\<bar>;
          e = bits_Len a - 53;
          q = a div 2 ^ e;
          r = a mod 2 ^ e;
          q' = (if 2 ^ e < 2 * r \<or> (2 * r = 2 ^ e \<and> odd q) then q + 1 else q)
      in sgn x * int (q' * 2 ^ e))"

text \<open>The Redis commands on one sorted set.\<close>

definition ZRemRangeByScore :: "int \<Rightarrow> zset \<Rightarrow> zset" where
  "ZRemRangeByScore maxScore zs = filter (\<lambda>z. \<not> snd z \<le> maxScore) zs"

definition ZCard :: "zset \<Rightarrow> int" where
  "ZCard zs = int (length zs)"

definition ZAdd :: "string \<times> int \<Rightarrow> zset \<Rightarrow> zset" where
  "ZAdd z zs =
     (if fst z \<in> fst ` set zs then map (\<lambda>z'. if fst z' = fst z then z else z') zs
      else zs @ [z])"

text \<open>\<^verbatim>\<open>%d\<close> of an integer and \<^verbatim>\<open>hex.EncodeToString\<close>.\<close>

fun itoa_nat :: "nat \<Rightarrow> string" where
  "itoa_nat n =
     (if n < 10 then [''0123456789'' ! n]
      else itoa_nat (n div 10) @ [''0123456789'' ! (n mod 10)])"

definition itoa :: "int \<Rightarrow> string" where
  "itoa i = (if i < 0 then CHR ''-'' # itoa_nat (nat (- i)) else itoa_nat (nat i))"

definition hex_EncodeToString :: "8 word list \<Rightarrow> string" where
  "hex_EncodeToString bs =
     concat (map (\<lambda>b. [''0123456789abcdef'' ! (unat b div 16),
                        ''0123456789abcdef'' ! (unat b mod 16)]) bs)"

definition bucket_key :: "string \<Rightarrow> string" where
  "bucket_key recipient = ''notifly:ratelimit:'' @ recipient"

definition Allow_member :: "timestamp \<Rightarrow> 8 word list \<Rightarrow> string" where
  "Allow_member now randBytes = itoa now @ '':'' @ hex_EncodeToString randBytes"

text \<open>
  \<^verbatim>\<open>RedisRecipientLimiter.Allow\<close> on the bucket of the recipient, given what the environment
  returns: the time, the random bytes, and for each of the two pipelines whether it fails.
  A pipeline that fails has changed nothing.
\<close>

definition Allow_bucket ::
  "RedisRecipientLimiter \<Rightarrow> timestamp \<Rightarrow> 8 word list \<Rightarrow> go_error option \<Rightarrow> go_error option \<Rightarrow>
     bucket \<Rightarrow> (bool \<times> go_error option) \<times> bucket" where
  "Allow_bucket r now randBytes fault1 fault2 b =
     (let windowStart = now - lim_window r
      in case fault1 of
           Some err \<Rightarrow> ((False, Some (WrapError ''checking recipient rate limit: '' err)), b)
         | None \<Rightarrow>
             (let b1 = b\<lparr>members := ZRemRangeByScore (float64 windowStart) (members b)\<rparr>;
                  count = ZCard (members b1)
              in if count \<ge> lim_maxPerHour r then ((False, None), b1)
                 else (let member = (Allow_member now randBytes, float64 now)
                       in case fault2 of
                            Some err \<Rightarrow>
                              ((False, Some (WrapError ''recording rate limit entry: '' err)), b1)
                          | None \<Rightarrow>
                              ((True, None),
                               b1\<lparr>members := ZAdd member (members b1),
                                  ttl := Some (lim_window r + Minute)\<rparr>))))"

text \<open>
  In the world, a call reads the clock, the reply of the first pipeline, the random source
  and the reply of the second pipeline at four steps.
\<close>

definition RedisRecipientLimiter_Allow ::
  "RedisRecipientLimiter \<Rightarrow> string \<Rightarrow> world \<Rightarrow> (bool \<times> go_error option) \<times> world" where
  "RedisRecipientLimiter_Allow r recipient w =
     (let key = bucket_key recipient; k = step w
      in case Allow_bucket r (now_at w k) (rand_at w (k + 2)) (fault_at w (k + 1))
                (fault_at w (k + 3)) (buckets w key) of
           (res, b) \<Rightarrow> (res, w\<lparr>step := k + 4, buckets := (buckets w)(key := b)\<rparr>))"

definition RedisLimiter :: "RedisRecipientLimiter \<Rightarrow> unit world_ext RecipientRateLimiter" where
  "RedisLimiter r = \<lparr>Allow = RedisRecipientLimiter_Allow r\<rparr>"

text \<open>
  A sequential execution against a healthy store: the calls of \<^verbatim>\<open>Allow\<close> one after the other,
  each with its recipient, the time it reads and the random bytes it draws; the result is
  the list of what the calls return.
\<close>

fun Allow_run ::
  "RedisRecipientLimiter \<Rightarrow> (string \<times> timestamp \<times> 8 word list) list \<Rightarrow> (string \<Rightarrow> bucket) \<Rightarrow>
     (bool \<times> go_error option) list" where
  "Allow_run r [] bs = []"
| "Allow_run r ((recipient, now, randBytes) # calls) bs =
     (case Allow_bucket r now randBytes None None (bs (bucket_key recipient)) of
        (res, b) \<Rightarrow> res # Allow_run r calls (bs(bucket_key recipient := b)))"

subsection \<open>Wiring (cmd/server/main.go, cmd/worker/main.go)\<close>

definition server_Service :: "int \<Rightarrow> int \<Rightarrow> unit world_ext Service" where
  "server_Service maxRetry maxPerHour =
     NewService SupabaseStore (queueEnqueuer maxRetry)
       (Some (RedisLimiter (NewRedisRecipientLimiter maxPerHour)))"

definition worker_Reaper :: "int \<Rightarrow> ReaperConfig \<Rightarrow> unit world_ext Reaper" where
  "worker_Reaper maxRetry cfg = NewReaper SupabaseStore (queueEnqueuer maxRetry) cfg"

subsection \<open>Queue server (infra/queue/asynq.go)\<close>

text \<open>
  A \<^verbatim>\<open>time.Duration\<close> is a 64-bit count of nanoseconds. In the retry-delay function the
  constants take this type, so the shift and the two products are computed in 64 bits and
  wrap around; the retry count \<^verbatim>\<open>n\<close> is an \<^verbatim>\<open>int\<close>, 64 bits on the build target, and the shift
  count is \<^verbatim>\<open>n - 1\<close> read as unsigned. A shift by 64 or more yields 0 in Go.
\<close>

type_synonym int64 = "64 word"

definition shl :: "int64 \<Rightarrow> int64 \<Rightarrow> int64" where
  "shl x s = (if 64 \<le> s then 0 else push_bit (unat s) x)"

definition Second :: int64 where
  "Second = 1000000000"

text \<open>
  \<^verbatim>\<open>RetryDelayFunc: func(n int, e error, t *asynq.Task) time.Duration {
      return time.Duration(30*(1<<uint(n-1))) * time.Second }\<close>
\<close>

definition RetryDelayFunc :: "int64 \<Rightarrow> int64" where
  "RetryDelayFunc n = (30 * shl 1 (n - 1)) * Second"

text \<open>
  The queue server calls the retry-delay function with the number of times the task has
  been retried so far, which is 0 when the task has failed for the first time: the delay
  before the n-th retry, for \<open>n\<close> from 1, is the value of the function at \<open>n - 1\<close>.
\<close>

definition retry_delay :: "int64 \<Rightarrow> int64" where
  "retry_delay n = RetryDelayFunc (n - 1)"

text \<open>
  What the queue server does with a task whose handler returned an error: the task is
  archived when the error wraps \<^verbatim>\<open>asynq.SkipRetry\<close> (\<^verbatim>\<open>errors.Is\<close>) or when it has been retried
  \<open>maxRetry\<close> times, and is retried after the delay otherwise.
\<close>

fun errors_Is_SkipRetry :: "go_error \<Rightarrow> bool"
  and errors_Is_SkipRetry_each :: "go_error list \<Rightarrow> bool" where
  "errors_Is_SkipRetry e =
     (case e of
        SkipRetry \<Rightarrow> True
      | WrapError p e' \<Rightarrow> errors_Is_SkipRetry e'
      | JoinError es \<Rightarrow> errors_Is_SkipRetry_each es
      | _ \<Rightarrow> False)"
| "errors_Is_SkipRetry_each [] = False"
| "errors_Is_SkipRetry_each (e # es) = (errors_Is_SkipRetry e \<or> errors_Is_SkipRetry_each es)"

definition asynq_retries :: "go_error \<Rightarrow> int \<Rightarrow> int \<Rightarrow> bool" where
  "asynq_retries err retried maxRetry = (\<not> (retried \<ge> maxRetry \<or> errors_Is_SkipRetry err))"

subsection \<open>Auxiliary notions\<close>

text \<open>The ids and the idempotency keys of the records of the table, in the order of the table.\<close>

definition id_keys :: "world \<Rightarrow> (string \<times> string option) list" where
  "id_keys w = map (\<lambda>r. (row_ID r, row_IdempotencyKey r)) (table w)"

text \<open>
  A call of \<^verbatim>\<open>Enqueue\<close> with idempotency key \<open>k\<close> that took the world from \<open>w\<close> to \<open>w'\<close> and
  returned \<open>r\<close> has created a record: no record of \<open>w\<close> had the key, \<open>w'\<close> has one more record,
  with this key, and a response, if one is returned, carries the id of that record.
\<close>

definition created :: "string \<Rightarrow> (go_error + SendResponse) \<Rightarrow> world \<Rightarrow> world \<Rightarrow> bool" where
  "created k r w w' \<longleftrightarrow>
     Some k \<notin> snd ` set (id_keys w) \<and>
     (\<exists>i. id_keys w' = id_keys w @ [(i, Some k)] \<and> (\<forall>resp. r = Inr resp \<longrightarrow> resp_ID resp = i))"

text \<open>
  Rounding to the nearest multiple of 256, a tie going to the even multiple: what
  \<open>float64\<close> does to the numbers from \<open>2^60\<close> up to \<open>2^61\<close> (the nanosecond timestamps of the
  years 2006 to 2043), which have 61 bits.
\<close>

definition rne256 :: "int \<Rightarrow> int" where
  "rne256 x = (let q = x div 256; r = x mod 256
               in (if 128 < r \<or> (r = 128 \<and> odd q) then q + 1 else q) * 256)"

text \<open>
  A call of a sequential execution of the limiter: the recipient, the time read and the
  random bytes drawn. The admissions of a recipient in a run are the calls for that
  recipient that returned \<^verbatim>\<open>(true, nil)\<close> at a time after \<open>lo\<close> and not after \<open>hi\<close>.
\<close>

type_synonym call = "string \<times> timestamp \<times> 8 word list"

definition call_to :: "call \<Rightarrow> string" where
  "call_to c = fst c"

definition call_time :: "call \<Rightarrow> timestamp" where
  "call_time c = fst (snd c)"

definition call_member :: "call \<Rightarrow> string" where
  "call_member c = Allow_member (fst (snd c)) (snd (snd c))"

definition admitted :: "string \<Rightarrow> int \<Rightarrow> int \<Rightarrow> call \<times> (bool \<times> go_error option) \<Rightarrow> bool" where
  "admitted recipient lo hi cr \<longleftrightarrow>
     call_to (fst cr) = recipient \<and> snd cr = (True, None) \<and>
     lo < call_time (fst cr) \<and> call_time (fst cr) \<le> hi"

definition admissions ::
  "string \<Rightarrow> int \<Rightarrow> int \<Rightarrow> call list \<Rightarrow> (bool \<times> go_error option) list \<Rightarrow> nat" where
  "admissions recipient lo hi calls results =
     length (filter (admitted recipient lo hi) (zip calls results))"

text \<open>The entries of a sorted set with a score of at least \<open>s\<close>.\<close>

definition counted :: "int \<Rightarrow> zset \<Rightarrow> nat" where
  "counted s zs = length (filter (\<lambda>z. s \<le> snd z) zs)"

subsection \<open>Example worlds\<close>

text \<open>
  A table with one record that an earlier attempt left in \<^verbatim>\<open>processing\<close> with an error
  message, twenty minutes before the clock of the world starts; every remote call
  succeeds.
\<close>

definition example_row :: supabaseRow where
  "example_row =
     \<lparr>row_ID = ''id-1'', row_IdempotencyKey = Some ''k1'', row_Channel = ''email'',
      row_Type = ''confirm_signup'', row_Recipient = ''a@b.com'', row_TemplateData = None,
      row_ProviderID = None, row_Status = ''processing'',
      row_ErrorMessage = Some ''provider error: timeout'',
      row_CreatedAt = Some 1000000000000, row_UpdatedAt = Some 1000000000000,
      row_SentAt = None, row_DeliveredAt = None, row_OpenedAt = None, row_BouncedAt = None\<rparr>"

definition example_world :: "(nat \<Rightarrow> go_error option) \<Rightarrow> world" where
  "example_world faults =
     \<lparr>slog = [], now_at = (\<lambda>k. 2200000000000 + int k), step = 0,
      table = [example_row], tasks = [],
      buckets = (\<lambda>key. \<lparr>members = [], ttl = None\<rparr>),
      fault_at = faults, uuid_at = (\<lambda>k. ''uuid-'' @ itoa (int k)),
      rand_at = (\<lambda>k. [0, 0, 0, 0])\<rparr>"

text \<open>
  Two calls of the limiter for one recipient, the second one nanosecond less than an hour
  after the first, and two calls a microsecond apart; a Redis without keys.
\<close>

definition calls_hour_apart :: "call list" where
  "calls_hour_apart =
     [(''a@b.com'', 1700000000000000001, [0, 0, 0, 1]),
      (''a@b.com'', 1700003600000000000, [0, 0, 0, 2])]"

definition calls_close :: "call list" where
  "calls_close =
     [(''a@b.com'', 1700000000000000001, [0, 0, 0, 1]),
      (''a@b.com'', 1700000000000001001, [0, 0, 0, 2])]"

definition no_buckets :: "string \<Rightarrow> bucket" where
  "no_buckets key = \<lparr>members = [], ttl = None\<rparr>"

text \<open>A store double whose \<^verbatim>\<open>GetByID\<close> finds nothing, and a renderer and a provider that succeed.\<close>

definition empty_Store :: "unit world_ext NotificationStore" where
  "empty_Store = SupabaseStore\<lparr>GetByID := (\<lambda>i w. ((None, None), w))\<rparr>"

definition fixed_Renderer :: "unit world_ext TemplateRenderer" where
  "fixed_Renderer = \<lparr>Render = (\<lambda>t d w. (((''Subject'', ''<p>Hello</p>'', ''Hello''), None), w))\<rparr>"

definition fixed_Provider :: "unit world_ext Provider" where
  "fixed_Provider = \<lparr>Send = (\<lambda>m w. ((''msg-1'', None), w)), prov_Channel = ''email''\<rparr>"

text \<open>A request for a recipient and an idempotency key that the example table does not have.\<close>

definition req_k2 :: SendRequest where
  "req_k2 = \<lparr>req_Channel = ''email'', req_Type = ''magic_link'', req_To = ''c@d.com'',
             req_Data = None, req_IdempotencyKey = ''k2''\<rparr>"

text \<open>Worlds in which one remote call fails: the first Redis pipeline, the third request to the store.\<close>

definition redis_down :: "nat \<Rightarrow> go_error option" where
  "redis_down k = (if k = 1 then Some (ErrorString ''connection refused'') else None)"

definition update_sent_fails :: "nat \<Rightarrow> go_error option" where
  "update_sent_fails k = (if k = 2 then Some (ErrorString ''connection reset'') else None)"

text \<open>
  A world in which the eighth remote call fails: after an intake call that makes seven remote
  calls (lookup, four for the limiter, insertion, enqueueing), it is the lookup of the next
  intake call.
\<close>

definition second_lookup_fails :: "nat \<Rightarrow> go_error option" where
  "second_lookup_fails k = (if k = 7 then Some (ErrorString ''connection reset'') else None)"

section \<open>Properties\<close>

subsection \<open>Intake: idempotency\<close>

lemma set_column_id_key:
  "row_ID (set_column cv r) = row_ID r"
  "row_IdempotencyKey (set_column cv r) = row_IdempotencyKey r"
  by (cases cv; cases "snd cv"; auto)+

lemma fold_set_column_id_key:
  "row_ID (fold set_column upd r) = row_ID r \<and>
   row_IdempotencyKey (fold set_column upd r) = row_IdempotencyKey r"
  by (induction upd arbitrary: r) (auto simp: set_column_id_key)

lemma id_keys_simps [simp]:
  "id_keys (tick w) = id_keys w"
  "id_keys (slog_Info m a w) = id_keys w"
  "id_keys (slog_Error m a w) = id_keys w"
  by (simp_all add: id_keys_def tick_def slog_Info_def slog_Error_def)

lemma id_keys_UpdateStatus:
  "id_keys (snd (SupabaseStore_UpdateStatus i status providerID errMsg w)) = id_keys w"
  by (auto simp: SupabaseStore_UpdateStatus_def Let_def id_keys_def tick_def db_update_def
        fold_set_column_id_key split: option.splits)

lemma id_keys_enqueue:
  "id_keys (snd (queue_EnqueueSendNotification maxRetry i w)) = id_keys w"
  by (auto simp: queue_EnqueueSendNotification_def Let_def id_keys_def tick_def
        split: option.splits)

lemma id_keys_Allow:
  "id_keys (snd (RedisRecipientLimiter_Allow r recipient w)) = id_keys w"
  by (auto simp: RedisRecipientLimiter_Allow_def Let_def id_keys_def split: prod.splits)

lemma id_keys_GetByIdempotencyKey:
  "id_keys (snd (SupabaseStore_GetByIdempotencyKey key w)) = id_keys w"
  by (auto simp: SupabaseStore_GetByIdempotencyKey_def Let_def split: option.splits list.splits)

lemma filter_key_id_keys:
  "map (\<lambda>r. row_ID r) (filter (\<lambda>r. row_IdempotencyKey r = Some k) (table w))
     = map fst (filter (\<lambda>p. snd p = Some k) (id_keys w))"
  by (simp add: id_keys_def filter_map comp_def)

lemma GetByIdempotencyKey_result:
  "fst (SupabaseStore_GetByIdempotencyKey k w) = (Some existing, err) \<Longrightarrow>
     \<exists>rest. map fst (filter (\<lambda>p. snd p = Some k) (id_keys w)) = log_ID existing # rest"
proof -
  assume a: "fst (SupabaseStore_GetByIdempotencyKey k w) = (Some existing, err)"
  then obtain row rows where f: "filter (\<lambda>r. row_IdempotencyKey r = Some k) (table w) = row # rows"
    and e: "existing = rowToLog row"
    by (auto simp: SupabaseStore_GetByIdempotencyKey_def Let_def split: option.splits list.splits)
  have "map (\<lambda>r. row_ID r) (filter (\<lambda>r. row_IdempotencyKey r = Some k) (table w))
          = log_ID existing # map row_ID rows"
    using f e by (simp add: rowToLog_def)
  then show ?thesis by (simp add: filter_key_id_keys)
qed

lemma GetByIdempotencyKey_present:
  assumes "fault_at w (step w) = None" and "Some k \<in> snd ` set (id_keys w)"
  shows "\<exists>existing. fst (SupabaseStore_GetByIdempotencyKey k w) = (Some existing, None)"
proof -
  from assms(2) obtain r where "r \<in> set (table w)" "row_IdempotencyKey r = Some k"
    by (auto simp: id_keys_def)
  then have "filter (\<lambda>r. row_IdempotencyKey r = Some k) (table w) \<noteq> []"
    by (auto simp: filter_empty_conv)
  then show ?thesis
    using assms(1)
    by (auto simp: SupabaseStore_GetByIdempotencyKey_def Let_def split: list.splits)
qed

lemma Create_cases:
  assumes "SupabaseStore_Create log w = ((log', err), w')"
    and "log_IdempotencyKey log = k" and "k \<noteq> ''''"
  shows "(err \<noteq> None \<and> id_keys w' = id_keys w) \<or>
         (err = None \<and> Some k \<notin> snd ` set (id_keys w) \<and>
          id_keys w' = id_keys w @ [(log_ID log', Some k)])"
  using assms
  by (auto simp: SupabaseStore_Create_def Let_def db_insert_def id_keys_def tick_def image_iff
      split: option.splits sum.splits if_splits)

lemma Enqueue_create_cases:
  assumes "Enqueue_create (server_Service maxRetry maxPerHour) req w = (r, w')"
    and "req_IdempotencyKey req = k" and "k \<noteq> ''''"
  shows "(id_keys w' = id_keys w \<and> (\<forall>resp. r \<noteq> Inr resp)) \<or> created k r w w'"
proof -
  let ?log = "\<lparr>log_ID = '''', log_IdempotencyKey = req_IdempotencyKey req,
                       log_Channel = req_Channel req, log_Type = req_Type req,
                       log_Recipient = req_To req, log_TemplateData = req_Data req,
                       log_ProviderID = '''', log_Status = StatusQueued, log_ErrorMessage = '''',
                       log_CreatedAt = 0, log_UpdatedAt = 0, log_SentAt = None,
                       log_DeliveredAt = None, log_OpenedAt = None, log_BouncedAt = None\<rparr>"
  obtain log' err wa where c: "SupabaseStore_Create ?log w = ((log', err), wa)"
    by (metis surj_pair)
  from Create_cases[OF c _ assms(3)] assms(2)
  have cc: "(err \<noteq> None \<and> id_keys wa = id_keys w) \<or>
         (err = None \<and> Some k \<notin> snd ` set (id_keys w) \<and>
          id_keys wa = id_keys w @ [(log_ID log', Some k)])" by simp
  show ?thesis
  proof (cases err)
    case (Some e)
    then show ?thesis
      using assms(1) c cc
      by (auto simp: Enqueue_create_def server_Service_def NewService_def SupabaseStore_def)
  next
    case None
    obtain qerr wb where q: "queue_EnqueueSendNotification maxRetry (log_ID log') wa = (qerr, wb)"
      by (metis surj_pair)
    have wb: "id_keys wb = id_keys wa" using id_keys_enqueue[of maxRetry "log_ID log'" wa] q by simp
    show ?thesis
    proof (cases qerr)
      case None
      then show ?thesis
        using assms(1) c cc q wb \<open>err = None\<close>
        by (auto simp: Enqueue_create_def server_Service_def NewService_def SupabaseStore_def
            queueEnqueuer_def created_def)
    next
      case (Some e)
      obtain uerr wc where u: "SupabaseStore_UpdateStatus (log_ID log') StatusFailed ''''
                          (''failed to enqueue: '' @ err_Error e) wb = (uerr, wc)"
        by (metis surj_pair)
      have wc: "id_keys wc = id_keys wb"
        using id_keys_UpdateStatus[of "log_ID log'" StatusFailed "''''"
            "''failed to enqueue: '' @ err_Error e" wb] u by simp
      show ?thesis
        using assms(1) c cc q wb u wc \<open>err = None\<close> Some
        by (auto simp: Enqueue_create_def server_Service_def NewService_def SupabaseStore_def
            queueEnqueuer_def created_def)
    qed
  qed
qed

lemma Enqueue_rateLimit_cases:
  assumes "Enqueue_rateLimit (server_Service maxRetry maxPerHour) req w = (r, w')"
    and "req_IdempotencyKey req = k" and "k \<noteq> ''''"
  shows "(id_keys w' = id_keys w \<and> (\<forall>resp. r \<noteq> Inr resp)) \<or> created k r w w'"
proof -
  let ?lim = "NewRedisRecipientLimiter maxPerHour"
  obtain allowed err wa where a: "RedisRecipientLimiter_Allow ?lim (req_To req) w = ((allowed, err), wa)"
    by (metis surj_pair)
  have wa: "id_keys wa = id_keys w" using id_keys_Allow[of ?lim "req_To req" w] a by simp
  show ?thesis
  proof (cases "err = None \<and> \<not> allowed")
    case True
    then show ?thesis
      using assms(1) a wa
      by (auto simp: Enqueue_rateLimit_def server_Service_def NewService_def RedisLimiter_def)
  next
    case False
    then obtain wb where "Enqueue_create (server_Service maxRetry maxPerHour) req wb = (r, w')"
      and "id_keys wb = id_keys w"
      using assms(1) a wa
      by (auto simp: Enqueue_rateLimit_def server_Service_def NewService_def RedisLimiter_def
          split: option.splits if_splits)
    then show ?thesis
      using Enqueue_create_cases[of maxRetry maxPerHour req wb r w' k] assms(2,3)
      by (auto simp: created_def)
  qed
qed

lemma Enqueue_cases:
  assumes "Enqueue (server_Service maxRetry maxPerHour) req w = (r, w')"
    and "req_IdempotencyKey req = k" and "k \<noteq> ''''"
  shows "(id_keys w' = id_keys w \<and>
          (\<forall>resp. r = Inr resp \<longrightarrow>
             (\<exists>rest. map fst (filter (\<lambda>p. snd p = Some k) (id_keys w)) = resp_ID resp # rest)))
         \<or> created k r w w'"
proof (cases "IsValidType (req_Type req)")
  case False
  then show ?thesis using assms(1) by (auto simp: Enqueue_def)
next
  case True
  obtain existing err wa where g: "SupabaseStore_GetByIdempotencyKey k w = ((existing, err), wa)"
    by (metis surj_pair)
  have wa: "id_keys wa = id_keys w" using id_keys_GetByIdempotencyKey[of k w] g by simp
  show ?thesis
  proof (cases existing)
    case (Some ex)
    have "\<exists>rest. map fst (filter (\<lambda>p. snd p = Some k) (id_keys w)) = log_ID ex # rest"
      using GetByIdempotencyKey_result[of k w ex err] g Some by simp
    then show ?thesis
      using assms True g wa Some
      by (auto simp: Enqueue_def server_Service_def NewService_def SupabaseStore_def
          split: option.splits)
  next
    case None
    then obtain wb where "Enqueue_rateLimit (server_Service maxRetry maxPerHour) req wb = (r, w')"
      and "id_keys wb = id_keys w"
      using assms True g wa
      by (auto simp: Enqueue_def server_Service_def NewService_def SupabaseStore_def
          split: option.splits)
    then show ?thesis
      using Enqueue_rateLimit_cases[of maxRetry maxPerHour req wb r w' k] assms(2,3)
      by (auto simp: created_def)
  qed
qed


lemma Enqueue_found:
  assumes "IsValidType (req_Type req)"
    and "req_IdempotencyKey req \<noteq> []"
    and "GetByIdempotencyKey (svc_store s) (req_IdempotencyKey req) w = ((Some existing, err), w')"
  shows "fst (Enqueue s req w) =
           Inr \<lparr>resp_ID = log_ID existing,
                 resp_IdempotencyKey = log_IdempotencyKey existing,
                 resp_Channel = log_Channel existing,
                 resp_Status = log_Status existing\<rparr>"
  using assms by (simp add: Enqueue_def)

lemma Enqueue_Inr_present:
  assumes "Enqueue (server_Service maxRetry maxPerHour) req w = (Inr resp, w')"
    and "req_IdempotencyKey req = k" and "k \<noteq> []"
  shows "Some k \<in> snd ` set (id_keys w')"
proof -
  from Enqueue_cases[OF assms]
  consider (a) "id_keys w' = id_keys w"
      "\<exists>rest. map fst (filter (\<lambda>p. snd p = Some k) (id_keys w)) = resp_ID resp # rest"
    | (b) "created k (Inr resp) w w'" by blast
  then show ?thesis
  proof cases
    case a
    then have "filter (\<lambda>p. snd p = Some k) (id_keys w) \<noteq> []" by auto
    then obtain p where "p \<in> set (id_keys w)" "snd p = Some k"
      by (auto simp: filter_empty_conv)
    then show ?thesis using a(1) by force
  next
    case b
    then show ?thesis by (auto simp: created_def)
  qed
qed

lemmas Enqueue_eval =
  Enqueue_def Enqueue_rateLimit_def Enqueue_create_def IsValidType_def validTypes_def
  server_Service_def NewService_def SupabaseStore_def RedisLimiter_def
  SupabaseStore_GetByIdempotencyKey_def RedisRecipientLimiter_Allow_def Allow_bucket_def
  NewRedisRecipientLimiter_def ZCard_def ZRemRangeByScore_def
  SupabaseStore_Create_def db_insert_def queueEnqueuer_def
  queue_EnqueueSendNotification_def example_world_def example_row_def req_k2_def
  tick_def slog_Info_def Let_def StatusQueued_def itoa_def rowToLog_def

lemma Enqueue_lookup_fails:
  assumes "IsValidType (req_Type req)" and "req_IdempotencyKey req \<noteq> []"
    and "fault_at w (step w) = Some e"
  shows "\<exists>wc. Enqueue (server_Service maxRetry maxPerHour) req w
                 = Enqueue_rateLimit (server_Service maxRetry maxPerHour) req wc
               \<and> id_keys wc = id_keys w"
proof -
  have "SupabaseStore_GetByIdempotencyKey (req_IdempotencyKey req) w
          = ((None, Some (WrapError ''fetching by idempotency key: '' e)), tick w)"
    using assms(3) by (simp add: SupabaseStore_GetByIdempotencyKey_def Let_def)
  then have "Enqueue (server_Service maxRetry maxPerHour) req w
          = Enqueue_rateLimit (server_Service maxRetry maxPerHour) req
              (slog_Error ''idempotency check failed''
                 [(''key'', req_IdempotencyKey req),
                  (''error'', err_Error (WrapError ''fetching by idempotency key: '' e))]
                 (tick w))"
    (is "_ = Enqueue_rateLimit _ _ ?wc")
    using assms(1,2) by (simp add: Enqueue_def server_Service_def NewService_def SupabaseStore_def)
  moreover have "id_keys ?wc = id_keys w"
    by (simp add: id_keys_def slog_Error_def tick_def)
  ultimately show ?thesis by (rule_tac x = "?wc" in exI) (rule conjI)
qed

text \<open>
  C1, as stated: two calls of \<^verbatim>\<open>Enqueue\<close> whose requests share a non-empty idempotency key
  create at most one record and both return a response with the same record id. When the
  lookup of the second call fails, \<^verbatim>\<open>Enqueue\<close> logs the failure and goes on without the
  idempotency check, as its comment says; the store then refuses the second record, and
  the second call returns the error of the insertion and no response. Here the first call
  creates the record \<open>uuid-5\<close>, and the lookup of the second call, at step 7, fails.
\<close>

theorem Enqueue_second_lookup_fails_counterexample:
  "fst (Enqueue (server_Service 5 3) req_k2 (example_world second_lookup_fails))
     = Inr \<lparr>resp_ID = ''uuid-5'', resp_IdempotencyKey = ''k2'', resp_Channel = ''email'',
            resp_Status = ''queued''\<rparr> \<and>
   fst (Enqueue (server_Service 5 3) req_k2
          (snd (Enqueue (server_Service 5 3) req_k2 (example_world second_lookup_fails))))
     = Inl (WrapError ''creating notification log: ''
             (WrapError ''inserting notification log: ''
               (ErrorString
                 ''duplicate key value violates unique constraint notification_logs_idempotency_key_key'')))"
  by (simp add: Enqueue_eval second_lookup_fails_def slog_Error_def ZAdd_def)

text \<open>
  C1, amended: take two calls of \<^verbatim>\<open>Enqueue\<close>, one after the other, on the service of the
  server process (Supabase store, whose table enforces the uniqueness of
  \<^verbatim>\<open>idempotency_key\<close>, queue client, Redis limiter), with requests that have the same
  non-empty idempotency key, whatever fails in between. Then at most one record is created;
  if both calls return a response, the two responses carry the same record id; if the first
  call returns a response, the second request has a valid type and its lookup does not
  fail, then the second call returns a response too; and if the first call returns a
  response and the lookup of the second call fails, the second call returns an error.
\<close>

theorem Enqueue_idempotent:
  assumes "req_IdempotencyKey req = k" and "req_IdempotencyKey req' = k" and "k \<noteq> []"
    and "Enqueue (server_Service maxRetry maxPerHour) req w = (r, wa)"
    and "Enqueue (server_Service maxRetry maxPerHour) req' wa = (r', wb)"
  shows "length (table wb) \<le> length (table w) + 1 \<and>
         (\<forall>resp resp'. r = Inr resp \<and> r' = Inr resp' \<longrightarrow> resp_ID resp = resp_ID resp') \<and>
         ((\<exists>resp. r = Inr resp) \<and> IsValidType (req_Type req') \<and> fault_at wa (step wa) = None
            \<longrightarrow> (\<exists>resp'. r' = Inr resp')) \<and>
         ((\<exists>resp. r = Inr resp) \<and> fault_at wa (step wa) \<noteq> None \<longrightarrow> (\<exists>e. r' = Inl e))"
proof -
  note c1 = Enqueue_cases[OF assms(4) assms(1) assms(3)]
  note c2 = Enqueue_cases[OF assms(5) assms(2) assms(3)]
  have len: "length (table v) = length (id_keys v)" for v by (simp add: id_keys_def)
  have A: "length (table wb) \<le> length (table w) + 1"
    unfolding len using c1 c2 by (auto simp: created_def)
  have absent: "filter (\<lambda>p. snd p = Some k) xs = []" if "Some k \<notin> snd ` set xs"
    for xs :: "(string \<times> string option) list"
    using that by (force simp: filter_empty_conv)
  have B: "resp_ID resp = resp_ID resp'" if "r = Inr resp" "r' = Inr resp'" for resp resp'
    using c1 c2 that by (auto simp: created_def absent)
  have C: "\<exists>resp'. r' = Inr resp'"
    if "r = Inr resp" "IsValidType (req_Type req')" "fault_at wa (step wa) = None" for resp
  proof -
    have "Some k \<in> snd ` set (id_keys wa)"
      using Enqueue_Inr_present[of maxRetry maxPerHour req w resp wa k] assms that by simp
    from GetByIdempotencyKey_present[OF that(3) this]
    obtain existing where "fst (SupabaseStore_GetByIdempotencyKey k wa) = (Some existing, None)"
      by blast
    then have "GetByIdempotencyKey (svc_store (server_Service maxRetry maxPerHour))
                 (req_IdempotencyKey req') wa
               = ((Some existing, None), snd (SupabaseStore_GetByIdempotencyKey k wa))"
      using assms(2)
      by (simp add: server_Service_def NewService_def SupabaseStore_def prod_eq_iff)
    from Enqueue_found[OF that(2) _ this] assms(2,3,5)
    show ?thesis by auto
  qed
  have D: "\<exists>e. r' = Inl e" if "r = Inr resp" "fault_at wa (step wa) \<noteq> None" for resp
  proof -
    have pres: "Some k \<in> snd ` set (id_keys wa)"
      using Enqueue_Inr_present[of maxRetry maxPerHour req w resp wa k] assms that by simp
    have "r' \<noteq> Inr resp'" for resp'
    proof (cases "IsValidType (req_Type req')")
      case False
      then show ?thesis using assms(5) by (auto simp: Enqueue_def)
    next
      case True
      from that(2) obtain e where e: "fault_at wa (step wa) = Some e" by auto
      from Enqueue_lookup_fails[OF True _ e, of maxRetry maxPerHour] assms(2,3)
      obtain wc where wc: "Enqueue (server_Service maxRetry maxPerHour) req' wa
                 = Enqueue_rateLimit (server_Service maxRetry maxPerHour) req' wc"
        "id_keys wc = id_keys wa" by auto
      then have "Enqueue_rateLimit (server_Service maxRetry maxPerHour) req' wc = (r', wb)"
        using assms(5) by simp
      from Enqueue_rateLimit_cases[OF this assms(2) assms(3)] pres wc(2)
      show ?thesis by (auto simp: created_def)
    qed
    then show ?thesis by (cases r') auto
  qed
  from A B C D show ?thesis by blast
qed

theorem Enqueue_idempotent_witness:
  "req_IdempotencyKey req_k2 = ''k2'' \<and> ''k2'' \<noteq> [] \<and>
   fst (Enqueue (server_Service 5 3) req_k2 (example_world (\<lambda>k. None)))
     = Inr \<lparr>resp_ID = ''uuid-5'', resp_IdempotencyKey = ''k2'', resp_Channel = ''email'',
            resp_Status = ''queued''\<rparr> \<and>
   fst (Enqueue (server_Service 5 3) req_k2
          (snd (Enqueue (server_Service 5 3) req_k2 (example_world (\<lambda>k. None)))))
     = Inr \<lparr>resp_ID = ''uuid-5'', resp_IdempotencyKey = ''k2'', resp_Channel = ''email'',
            resp_Status = ''queued''\<rparr> \<and>
   length (table (snd (Enqueue (server_Service 5 3) req_k2
          (snd (Enqueue (server_Service 5 3) req_k2 (example_world (\<lambda>k. None))))))) = 2 \<and>
   fault_at (snd (Enqueue (server_Service 5 3) req_k2 (example_world second_lookup_fails)))
      (step (snd (Enqueue (server_Service 5 3) req_k2 (example_world second_lookup_fails))))
     \<noteq> None \<and>
   (\<exists>e. fst (Enqueue (server_Service 5 3) req_k2
           (snd (Enqueue (server_Service 5 3) req_k2 (example_world second_lookup_fails))))
      = Inl e)"
proof -
  let ?S = "server_Service 5 3"
  let ?w = "example_world (\<lambda>k. None)"
  let ?v = "example_world second_lookup_fails"
  have e1: "Enqueue ?S req_k2 ?w = (fst (Enqueue ?S req_k2 ?w), snd (Enqueue ?S req_k2 ?w))"
    by simp
  have e2: "Enqueue ?S req_k2 (snd (Enqueue ?S req_k2 ?w))
     = (fst (Enqueue ?S req_k2 (snd (Enqueue ?S req_k2 ?w))),
        snd (Enqueue ?S req_k2 (snd (Enqueue ?S req_k2 ?w))))"
    by simp
  have f1: "Enqueue ?S req_k2 ?v = (fst (Enqueue ?S req_k2 ?v), snd (Enqueue ?S req_k2 ?v))"
    by simp
  have f2: "Enqueue ?S req_k2 (snd (Enqueue ?S req_k2 ?v))
     = (fst (Enqueue ?S req_k2 (snd (Enqueue ?S req_k2 ?v))),
        snd (Enqueue ?S req_k2 (snd (Enqueue ?S req_k2 ?v))))"
    by simp
  have k: "req_IdempotencyKey req_k2 = ''k2''" "''k2'' \<noteq> []" by (simp_all add: req_k2_def)
  have first: "fst (Enqueue ?S req_k2 ?w)
     = Inr \<lparr>resp_ID = ''uuid-5'', resp_IdempotencyKey = ''k2'', resp_Channel = ''email'',
            resp_Status = ''queued''\<rparr>"
    by (simp add: Enqueue_eval)
  have second: "fst (Enqueue ?S req_k2 (snd (Enqueue ?S req_k2 ?w)))
     = Inr \<lparr>resp_ID = ''uuid-5'', resp_IdempotencyKey = ''k2'', resp_Channel = ''email'',
            resp_Status = ''queued''\<rparr>"
    by (simp add: Enqueue_eval)
  have tbl: "length (table (snd (Enqueue ?S req_k2 (snd (Enqueue ?S req_k2 ?w))))) = 2"
    by (simp add: Enqueue_eval)
  have first_v: "\<exists>resp. fst (Enqueue ?S req_k2 ?v) = Inr resp"
    by (simp add: Enqueue_eval second_lookup_fails_def)
  have fault_v: "fault_at (snd (Enqueue ?S req_k2 ?v)) (step (snd (Enqueue ?S req_k2 ?v))) \<noteq> None"
    by (simp add: Enqueue_eval second_lookup_fails_def)
  have second_v: "\<exists>e. fst (Enqueue ?S req_k2 (snd (Enqueue ?S req_k2 ?v))) = Inl e"
    using Enqueue_idempotent [OF k(1) k(1) k(2) f1 f2] first_v fault_v by blast
  show ?thesis
    using Enqueue_idempotent [OF k(1) k(1) k(2) e1 e2] k first second tbl fault_v second_v
    by simp
qed

subsection \<open>Intake: idempotent replay\<close>

lemma GetByIdempotencyKey_frame:
  "SupabaseStore_GetByIdempotencyKey key w = (res, w1) \<Longrightarrow> w1 = tick w"
  by (auto simp: SupabaseStore_GetByIdempotencyKey_def Let_def split: option.splits list.splits)

text \<open>
  C2: for a request of a valid type with a non-empty idempotency key for which the lookup
  returns an existing record, \<^verbatim>\<open>Enqueue\<close> returns a response with the id, the idempotency key,
  the channel and the status of that record, and the world it leaves is the one the lookup
  left, with the log lines added: the rate limiter is not called, no record is created and
  nothing is enqueued. With the store, the queue and the limiter of the server process,
  the table, the queue and the rate-limit buckets are as before. (A request of an invalid
  type is rejected before the lookup.)
\<close>

theorem Enqueue_existing_record:
  assumes "IsValidType (req_Type req)"
    and "req_IdempotencyKey req \<noteq> ''''"
    and "GetByIdempotencyKey (svc_store s) (req_IdempotencyKey req) w = ((Some existing, err), w')"
  shows "Enqueue s req w =
           (Inr \<lparr>resp_ID = log_ID existing,
                 resp_IdempotencyKey = log_IdempotencyKey existing,
                 resp_Channel = log_Channel existing,
                 resp_Status = log_Status existing\<rparr>,
            slog_Info
              (''idempotent request '' @ [CHR 0xE2, CHR 0x80, CHR 0x94]
                 @ '' returning existing result'')
              [(''idempotency_key'', req_IdempotencyKey req),
               (''existing_id'', log_ID existing),
               (''existing_status'', log_Status existing)]
              (case err of
                 Some e \<Rightarrow>
                   slog_Error ''idempotency check failed''
                     [(''key'', req_IdempotencyKey req), (''error'', err_Error e)] w'
               | None \<Rightarrow> w'))
         \<and> (s = server_Service maxRetry maxPerHour \<longrightarrow>
              table (snd (Enqueue s req w)) = table w \<and>
              tasks (snd (Enqueue s req w)) = tasks w \<and>
              buckets (snd (Enqueue s req w)) = buckets w)"
proof -
  have eq: "Enqueue s req w =
           (Inr \<lparr>resp_ID = log_ID existing,
                 resp_IdempotencyKey = log_IdempotencyKey existing,
                 resp_Channel = log_Channel existing,
                 resp_Status = log_Status existing\<rparr>,
            slog_Info
              (''idempotent request '' @ [CHR 0xE2, CHR 0x80, CHR 0x94]
                 @ '' returning existing result'')
              [(''idempotency_key'', req_IdempotencyKey req),
               (''existing_id'', log_ID existing),
               (''existing_status'', log_Status existing)]
              (case err of
                 Some e \<Rightarrow>
                   slog_Error ''idempotency check failed''
                     [(''key'', req_IdempotencyKey req), (''error'', err_Error e)] w'
               | None \<Rightarrow> w'))"
    using assms by (simp add: Enqueue_def)
  have "table (snd (Enqueue s req w)) = table w \<and>
        tasks (snd (Enqueue s req w)) = tasks w \<and>
        buckets (snd (Enqueue s req w)) = buckets w"
    if "s = server_Service maxRetry maxPerHour"
  proof -
    have "SupabaseStore_GetByIdempotencyKey (req_IdempotencyKey req) w = ((Some existing, err), w')"
      using assms(3) that by (simp add: server_Service_def NewService_def SupabaseStore_def)
    then have "w' = tick w" by (rule GetByIdempotencyKey_frame)
    then show ?thesis
      unfolding eq by (simp add: slog_Info_def slog_Error_def tick_def split: option.splits)
  qed
  with eq show ?thesis by blast
qed

theorem Enqueue_existing_record_witness:
  "IsValidType ''magic_link'' \<and>
   GetByIdempotencyKey (svc_store (server_Service 5 3)) ''k1'' (example_world (\<lambda>k. None))
     = ((Some (rowToLog example_row), None), tick (example_world (\<lambda>k. None))) \<and>
   fst (Enqueue (server_Service 5 3)
          \<lparr>req_Channel = ''email'', req_Type = ''magic_link'', req_To = ''a@b.com'',
           req_Data = None, req_IdempotencyKey = ''k1''\<rparr> (example_world (\<lambda>k. None)))
     = Inr \<lparr>resp_ID = ''id-1'', resp_IdempotencyKey = ''k1'', resp_Channel = ''email'',
            resp_Status = ''processing''\<rparr> \<and>
   table (snd (Enqueue (server_Service 5 3)
          \<lparr>req_Channel = ''email'', req_Type = ''magic_link'', req_To = ''a@b.com'',
           req_Data = None, req_IdempotencyKey = ''k1''\<rparr> (example_world (\<lambda>k. None))))
     = table (example_world (\<lambda>k. None))"
proof -
  let ?req = "\<lparr>req_Channel = ''email'', req_Type = ''magic_link'', req_To = ''a@b.com'',
           req_Data = None, req_IdempotencyKey = ''k1''\<rparr>"
  let ?w = "example_world (\<lambda>k. None)"
  have h1: "IsValidType (req_Type ?req)"
    by (simp add: IsValidType_def validTypes_def)
  have h2: "req_IdempotencyKey ?req \<noteq> ''''" by simp
  have h3: "GetByIdempotencyKey (svc_store (server_Service 5 3)) (req_IdempotencyKey ?req) ?w
     = ((Some (rowToLog example_row), None), tick ?w)"
    by (simp add: server_Service_def NewService_def SupabaseStore_def
        SupabaseStore_GetByIdempotencyKey_def example_world_def example_row_def)
  show ?thesis
    using h1 h3 Enqueue_existing_record [OF h1 h2 h3, of 5 3]
    by (simp add: rowToLog_def example_row_def slog_Info_def tick_def)
qed

subsection \<open>Intake: the limiter fails\<close>

lemma Enqueue_create_not_validation:
  "fst (Enqueue_create s req w) \<noteq> Inl (ValidationError m)"
  by (simp add: Enqueue_create_def Let_def split: prod.splits option.splits)

text \<open>
  C3: when the call of \<^verbatim>\<open>Allow\<close> made by \<^verbatim>\<open>Enqueue\<close> returns an error (the request has a valid
  type and either no idempotency key or one for which the lookup found no record, so that
  the rate-limit check is reached), \<^verbatim>\<open>Enqueue\<close> logs the error and goes on exactly as
  \<open>Enqueue_create\<close> does, creating the record and enqueuing the task; whatever it returns,
  it is not the validation error of a rate-limit rejection.
\<close>

theorem Enqueue_limiter_error:
  assumes "IsValidType (req_Type req)"
    and "(req_IdempotencyKey req = '''' \<and> wa = w) \<or>
         (req_IdempotencyKey req \<noteq> '''' \<and>
          (\<exists>err w1. GetByIdempotencyKey (svc_store s) (req_IdempotencyKey req) w = ((None, err), w1) \<and>
             wa = (case err of
                     Some e \<Rightarrow>
                       slog_Error ''idempotency check failed''
                         [(''key'', req_IdempotencyKey req), (''error'', err_Error e)] w1
                   | None \<Rightarrow> w1)))"
    and "svc_rateLimiter s = Some rateLimiter"
    and "Allow rateLimiter (req_To req) wa = ((allowed, Some err), w')"
  shows "Enqueue s req w =
           Enqueue_create s req
             (slog_Error ''rate limit check failed, proceeding without limit''
                [(''recipient'', req_To req), (''error'', err_Error err)] w')
         \<and> (\<forall>m. fst (Enqueue s req w) \<noteq> Inl (ValidationError m))"
proof -
  have rl: "Enqueue_rateLimit s req wa =
           Enqueue_create s req
             (slog_Error ''rate limit check failed, proceeding without limit''
                [(''recipient'', req_To req), (''error'', err_Error err)] w')"
    using assms(3,4) by (simp add: Enqueue_rateLimit_def)
  have "Enqueue s req w = Enqueue_rateLimit s req wa"
    using assms(1,2) by (auto simp: Enqueue_def)
  with rl show ?thesis by (simp add: Enqueue_create_not_validation)
qed

theorem Enqueue_limiter_error_witness:
  "IsValidType ''magic_link'' \<and>
   fst (Allow (RedisLimiter (NewRedisRecipientLimiter 3)) ''c@d.com'' (example_world redis_down))
     = (False, Some (WrapError ''checking recipient rate limit: ''
                       (ErrorString ''connection refused''))) \<and>
   fst (Enqueue (server_Service 5 3)
          \<lparr>req_Channel = ''email'', req_Type = ''magic_link'', req_To = ''c@d.com'',
           req_Data = None, req_IdempotencyKey = ''''\<rparr> (example_world redis_down))
     = Inr \<lparr>resp_ID = ''uuid-4'', resp_IdempotencyKey = '''', resp_Channel = ''email'',
            resp_Status = ''queued''\<rparr> \<and>
   tasks (snd (Enqueue (server_Service 5 3)
          \<lparr>req_Channel = ''email'', req_Type = ''magic_link'', req_To = ''c@d.com'',
           req_Data = None, req_IdempotencyKey = ''''\<rparr> (example_world redis_down)))
     = [(''uuid-4'', 5)]"
proof -
  let ?req = "\<lparr>req_Channel = ''email'', req_Type = ''magic_link'', req_To = ''c@d.com'',
           req_Data = None, req_IdempotencyKey = ''''\<rparr>"
  let ?w = "example_world redis_down"
  let ?s = "server_Service 5 3"
  let ?e = "WrapError ''checking recipient rate limit: '' (ErrorString ''connection refused'')"
  let ?w' = "?w\<lparr>step := 4, buckets := (buckets ?w)
               (bucket_key ''c@d.com'' := buckets ?w (bucket_key ''c@d.com''))\<rparr>"
  have h1: "IsValidType (req_Type ?req)"
    by (simp add: IsValidType_def validTypes_def)
  have h2: "(req_IdempotencyKey ?req = '''' \<and> ?w = ?w) \<or>
         (req_IdempotencyKey ?req \<noteq> '''' \<and>
          (\<exists>err w1. GetByIdempotencyKey (svc_store ?s) (req_IdempotencyKey ?req) ?w = ((None, err), w1) \<and>
             ?w = (case err of
                     Some e \<Rightarrow>
                       slog_Error ''idempotency check failed''
                         [(''key'', req_IdempotencyKey ?req), (''error'', err_Error e)] w1
                   | None \<Rightarrow> w1)))"
    by simp
  have h3: "svc_rateLimiter ?s = Some (RedisLimiter (NewRedisRecipientLimiter 3))"
    by (simp add: server_Service_def NewService_def)
  have h4: "Allow (RedisLimiter (NewRedisRecipientLimiter 3)) (req_To ?req) ?w = ((False, Some ?e), ?w')"
    by (simp add: RedisLimiter_def RedisRecipientLimiter_Allow_def Allow_bucket_def
          example_world_def redis_down_def)
  show ?thesis
    using h1 h4 Enqueue_limiter_error [OF h1 h2 h3 h4]
    by (simp add: Enqueue_create_def server_Service_def NewService_def SupabaseStore_def
          SupabaseStore_Create_def queueEnqueuer_def queue_EnqueueSendNotification_def
          example_world_def redis_down_def slog_Error_def slog_Info_def tick_def db_insert_def
          example_row_def StatusQueued_def itoa_def Let_def)
qed

subsection \<open>Rate limiter: scores as doubles\<close>

lemma bits_Len_range: "2 ^ n \<le> k \<Longrightarrow> k < 2 ^ Suc n \<Longrightarrow> bits_Len k = Suc n"
proof (induction n arbitrary: k)
  case 0
  then have "k = 1" by simp
  then show ?case by simp
next
  case (Suc n)
  have "2 ^ n \<le> k div 2" using Suc.prems(1) by simp
  moreover have "k div 2 < 2 ^ Suc n" using Suc.prems(2) by simp
  ultimately have "bits_Len (k div 2) = Suc n" by (rule Suc.IH)
  moreover have "(0::nat) < 2 ^ Suc n" by simp
  then have "k \<noteq> 0" using Suc.prems(1) by linarith
  ultimately show ?case by (subst bits_Len.simps) simp
qed

lemma float64_rne256:
  assumes "2 ^ 60 \<le> x" and "x < 2 ^ 61"
  shows "float64 x = rne256 x"
proof -
  have "(0::int) < 2 ^ 60" by simp
  then have pos: "0 < x" using assms(1) by linarith
  have "2 ^ 60 \<le> nat x" using assms(1) pos by (simp add: le_nat_iff)
  moreover have "nat x < 2 ^ Suc 60" using assms(2) pos by (simp add: nat_less_iff)
  ultimately have bl: "bits_Len (nat x) = 61" using bits_Len_range[of 60 "nat x"] by simp
  have d: "int (nat x div 256) = x div 256" using pos by (simp add: zdiv_int)
  have m: "int (nat x mod 256) = x mod 256" using pos by (simp add: zmod_int)
  have abs: "\<bar>x\<bar> = x" "sgn x = 1" using pos by simp_all
  have od: "odd (nat x div 256) = odd (x div 256)"
    using d by (metis even_of_nat)
  have r1: "(256 < 2 * (nat x mod 256)) = (128 < x mod 256)" using m by linarith
  have r2: "(2 * (nat x mod 256) = 256) = (x mod 256 = 128)" using m by linarith
  show ?thesis
    unfolding float64_def rne256_def Let_def abs bl
    using d m by (simp add: r1 r2 od)
qed

lemma rne256_bounds: "x - 128 \<le> rne256 x \<and> rne256 x \<le> x + 128"
proof -
  have "x = x div 256 * 256 + x mod 256" by simp
  moreover have "0 \<le> x mod 256" "x mod 256 < 256" by simp_all
  ultimately show ?thesis unfolding rne256_def Let_def by (auto; linarith)
qed

lemma rne256_mono: "x \<le> y \<Longrightarrow> rne256 x \<le> rne256 y"
proof -
  assume xy: "x \<le> y"
  have ex: "x = x div 256 * 256 + x mod 256" by simp
  have ey: "y = y div 256 * 256 + y mod 256" by simp
  have mx: "0 \<le> x mod 256" "x mod 256 < 256" by simp_all
  have my: "0 \<le> y mod 256" "y mod 256 < 256" by simp_all
  have qle: "x div 256 \<le> y div 256" using xy by (simp add: zdiv_mono1)
  show ?thesis
  proof (cases "x div 256 = y div 256")
    case True
    then have "x mod 256 \<le> y mod 256" using xy ex ey by linarith
    then show ?thesis unfolding rne256_def Let_def using True by auto
  next
    case False
    then have "x div 256 + 1 \<le> y div 256" using qle by linarith
    then have "(x div 256 + 1) * 256 \<le> y div 256 * 256" by simp
    moreover have "rne256 x \<le> (x div 256 + 1) * 256" unfolding rne256_def Let_def by auto
    moreover have "y div 256 * 256 \<le> rne256 y" unfolding rne256_def Let_def by auto
    ultimately show ?thesis by (meson order_trans)
  qed
qed

lemma float64_mono:
  "2 ^ 60 \<le> x \<Longrightarrow> x \<le> y \<Longrightarrow> y < 2 ^ 61 \<Longrightarrow> float64 x \<le> float64 y"
  using float64_rne256[of x] float64_rne256[of y] rne256_mono[of x y] by simp

lemma float64_less:
  assumes "2 ^ 60 \<le> x" and "x + 256 < y" and "y < 2 ^ 61"
  shows "float64 x < float64 y"
proof -
  have "float64 x = rne256 x" using assms by (intro float64_rne256) auto
  moreover have "float64 y = rne256 y" using assms by (intro float64_rne256) auto
  ultimately show ?thesis using rne256_bounds[of x] rne256_bounds[of y] assms(2) by linarith
qed


subsection \<open>Rate limiter: the sliding window\<close>

lemma bucket_key_inj [simp]: "bucket_key a = bucket_key b \<longleftrightarrow> a = b"
  by (simp add: bucket_key_def)

lemma ZAdd_fresh: "m \<notin> fst ` set zs \<Longrightarrow> ZAdd (m, s) zs = zs @ [(m, s)]"
  by (simp add: ZAdd_def)

lemma Allow_bucket_healthy:
  "Allow_bucket lim now rb None None b =
     (let b1 = b\<lparr>members := ZRemRangeByScore (float64 (now - lim_window lim)) (members b)\<rparr>
      in if lim_maxPerHour lim \<le> int (length (members b1)) then ((False, None), b1)
         else ((True, None),
               b1\<lparr>members := ZAdd (Allow_member now rb, float64 now) (members b1),
                  ttl := Some (lim_window lim + Minute)\<rparr>))"
  by (simp add: Allow_bucket_def Let_def ZCard_def)

lemma admissions_Nil [simp]: "admissions rc lo hi [] rs = 0"
  by (simp add: admissions_def)

lemma admissions_Cons:
  "admissions rc lo hi (c # cs) (r # rs) =
     (if admitted rc lo hi (c, r) then 1 else 0) + admissions rc lo hi cs rs"
  by (simp add: admissions_def)

lemma admissions_late:
  "\<forall>c \<in> set cs. hi < call_time c \<Longrightarrow> admissions rc lo hi cs rs = 0"
  by (auto simp: admissions_def admitted_def filter_empty_conv dest!: set_zip_leftD)

lemma counted_le: "counted s zs \<le> length zs"
  by (simp add: counted_def)

lemma counted_append: "counted s (zs @ [z]) = counted s zs + (if s \<le> snd z then 1 else 0)"
  by (simp add: counted_def)

lemma counted_ZRem:
  "t < s \<Longrightarrow> counted s (ZRemRangeByScore t zs) = counted s zs"
  by (induction zs) (auto simp: counted_def ZRemRangeByScore_def)

lemma length_ZRem: "length (ZRemRangeByScore t zs) \<le> length zs"
  by (simp add: ZRemRangeByScore_def)

lemma set_ZRem: "set (ZRemRangeByScore t zs) \<subseteq> set zs"
  by (auto simp: ZRemRangeByScore_def)

text \<open>
  The invariant of a run, for a window that starts after \<open>a\<close> and is 256 ns shorter than the
  window of the limiter: the entries of the bucket that count for the window (those with a
  score of at least the score of \<open>a + 1\<close>) and the admissions still to come in the window
  are together at most the limit. An admission adds one entry that counts; an expiry made
  by a call in the window removes none that counts.
\<close>

lemma window_invariant:
  assumes W0: "0 \<le> lim_window lim"
    and a1: "2 ^ 60 \<le> a - 256" and a2: "a + 1 < 2 ^ 61"
    and srt: "sorted (map call_time calls)"
    and rng: "\<forall>c\<in>set calls. 2 ^ 60 \<le> call_time c - lim_window lim \<and> call_time c < 2 ^ 61"
    and dst: "distinct (map call_member (filter (\<lambda>c. call_to c = rc) calls))"
    and fresh: "\<forall>c\<in>set calls. call_to c = rc \<longrightarrow>
                  call_member c \<notin> fst ` set (members (bs (bucket_key rc)))"
    and len: "int (length (members (bs (bucket_key rc)))) \<le> max 0 (lim_maxPerHour lim)"
  shows "int (counted (float64 (a + 1)) (members (bs (bucket_key rc))))
           + int (admissions rc a (a + (lim_window lim - 256)) calls (Allow_run lim calls bs))
         \<le> max 0 (lim_maxPerHour lim)"
  using srt rng dst fresh len
proof (induction calls arbitrary: bs)
  case Nil
  have "int (counted (float64 (a + 1)) (members (bs (bucket_key rc))))
          \<le> int (length (members (bs (bucket_key rc))))"
    using counted_le by simp
  with Nil.prems(5) show ?case by simp
next
  case (Cons c calls)
  let ?W = "lim_window lim"
  let ?M = "max 0 (lim_maxPerHour lim)"
  let ?th = "float64 (a + 1)"
  let ?hi = "a + (?W - 256)"
  obtain rc' now rb where c: "c = (rc', now, rb)" by (cases c)
  obtain res b' where ab: "Allow_bucket lim now rb None None (bs (bucket_key rc')) = (res, b')"
    by (metis surj_pair)
  let ?bs' = "bs(bucket_key rc' := b')"
  have run: "Allow_run lim (c # calls) bs = res # Allow_run lim calls ?bs'"
    using c ab by simp
  have srt': "sorted (map call_time calls)" using Cons.prems(1) by simp
  have rng': "\<forall>c\<in>set calls. 2 ^ 60 \<le> call_time c - ?W \<and> call_time c < 2 ^ 61"
    using Cons.prems(2) by simp
  have dst': "distinct (map call_member (filter (\<lambda>c. call_to c = rc) calls))"
    using Cons.prems(3) by (simp split: if_splits)
  have tc: "call_time c = now" "call_to c = rc'" "call_member c = Allow_member now rb"
    using c by (simp_all add: call_time_def call_to_def call_member_def)
  have nr: "2 ^ 60 \<le> now - ?W" "now < 2 ^ 61" using Cons.prems(2) tc by auto
  show ?case
  proof (cases "rc' = rc")
    case False
    then have same: "?bs' (bucket_key rc) = bs (bucket_key rc)" by simp
    have "\<not> admitted rc a ?hi (c, res)" using False tc by (simp add: admitted_def)
    then have adm: "admissions rc a ?hi (c # calls) (Allow_run lim (c # calls) bs)
                = admissions rc a ?hi calls (Allow_run lim calls ?bs')"
      unfolding run by (simp add: admissions_Cons)
    have "int (counted ?th (members (?bs' (bucket_key rc))))
            + int (admissions rc a ?hi calls (Allow_run lim calls ?bs')) \<le> ?M"
      using Cons.prems(4,5) unfolding same [symmetric]
      by (intro Cons.IH[of "?bs'", OF srt' rng' dst']) auto
    then show ?thesis unfolding adm same .
  next
    case True
    define zs where "zs = members (bs (bucket_key rc))"
    define zs1 where "zs1 = ZRemRangeByScore (float64 (now - ?W)) zs"
    have key: "bs (bucket_key rc') = bs (bucket_key rc)" using True by simp
    have upd: "?bs' (bucket_key rc) = b'" using True by simp
    have m_fresh: "Allow_member now rb \<notin> fst ` set zs"
      using Cons.prems(4) tc True by (auto simp: zs_def)
    have lenz: "int (length zs) \<le> ?M" using Cons.prems(5) by (simp add: zs_def)
    have sub1: "set zs1 \<subseteq> set zs" unfolding zs1_def by (rule set_ZRem)
    have len1: "length zs1 \<le> length zs" unfolding zs1_def by (rule length_ZRem)
    have tail_fresh: "call_member c' \<notin> fst ` set zs" if "c' \<in> set calls" "call_to c' = rc" for c'
      using Cons.prems(4) that by (auto simp: zs_def)
    have tail_ne: "call_member c' \<noteq> Allow_member now rb"
      if "c' \<in> set calls" "call_to c' = rc" for c'
    proof -
      have "call_member c \<notin> set (map call_member (filter (\<lambda>c. call_to c = rc) calls))"
        using Cons.prems(3) tc(2) True by simp
      moreover have "call_member c' \<in> set (map call_member (filter (\<lambda>c. call_to c = rc) calls))"
        using that by force
      ultimately show ?thesis using tc(3) by metis
    qed
    show ?thesis
    proof (cases "now \<le> ?hi")
      case False
      have "\<forall>c' \<in> set (c # calls). ?hi < call_time c'"
        using Cons.prems(1) False tc by auto
      then have "admissions rc a ?hi (c # calls) (Allow_run lim (c # calls) bs) = 0"
        by (rule admissions_late)
      moreover have "int (counted ?th zs) \<le> int (length zs)" using counted_le by simp
      ultimately show ?thesis using lenz by (simp add: zs_def)
    next
      case inwin: True
      have thr: "float64 (now - ?W) < ?th"
        using nr(1) inwin a2 by (intro float64_less) auto
      have cnt: "counted ?th zs1 = counted ?th zs"
        unfolding zs1_def using thr by (rule counted_ZRem)
      show ?thesis
      proof (cases "lim_maxPerHour lim \<le> int (length zs1)")
        case denied: True
        have r: "res = (False, None)" and b: "members b' = zs1"
          using ab denied unfolding key
          by (auto simp: Allow_bucket_healthy Let_def zs_def zs1_def)
        have "\<not> admitted rc a ?hi (c, res)" using r by (simp add: admitted_def)
        then have adm: "admissions rc a ?hi (c # calls) (Allow_run lim (c # calls) bs)
                = admissions rc a ?hi calls (Allow_run lim calls ?bs')"
          unfolding run by (simp add: admissions_Cons)
        have f: "\<forall>c\<in>set calls. call_to c = rc \<longrightarrow>
                  call_member c \<notin> fst ` set (members (?bs' (bucket_key rc)))"
          unfolding upd b using tail_fresh sub1 by blast
        have l: "int (length (members (?bs' (bucket_key rc)))) \<le> ?M"
          unfolding upd b using len1 lenz by linarith
        have "int (counted ?th (members (?bs' (bucket_key rc))))
            + int (admissions rc a ?hi calls (Allow_run lim calls ?bs')) \<le> ?M"
          by (rule Cons.IH[of "?bs'", OF srt' rng' dst' f l])
        then show ?thesis unfolding adm upd b cnt by (simp add: zs_def)
      next
        case allowed: False
        have m1: "Allow_member now rb \<notin> fst ` set zs1" using m_fresh sub1 by blast
        have r: "res = (True, None)"
          and b: "members b' = zs1 @ [(Allow_member now rb, float64 now)]"
          using ab allowed unfolding key
          by (auto simp: Allow_bucket_healthy Let_def zs_def zs1_def ZAdd_fresh[OF m1[unfolded zs1_def zs_def]])
        have adm: "admissions rc a ?hi (c # calls) (Allow_run lim (c # calls) bs)
                = (if a < now then 1 else 0) + admissions rc a ?hi calls (Allow_run lim calls ?bs')"
          unfolding run using r tc True inwin by (simp add: admissions_Cons admitted_def)
        have img: "fst ` set (zs1 @ [(Allow_member now rb, float64 now)])
                     \<subseteq> insert (Allow_member now rb) (fst ` set zs)"
          using sub1 by auto
        have f: "\<forall>c\<in>set calls. call_to c = rc \<longrightarrow>
                  call_member c \<notin> fst ` set (members (?bs' (bucket_key rc)))"
          unfolding upd b using tail_fresh tail_ne img by blast
        have l: "int (length (members (?bs' (bucket_key rc)))) \<le> ?M"
          unfolding upd b using allowed by simp
        have ih: "int (counted ?th (members (?bs' (bucket_key rc))))
            + int (admissions rc a ?hi calls (Allow_run lim calls ?bs')) \<le> ?M"
          by (rule Cons.IH[of "?bs'", OF srt' rng' dst' f l])
        have "(if a < now then 1 else 0) \<le> (if ?th \<le> float64 now then 1 else (0::nat))"
        proof (cases "a < now")
          case True
          then have "?th \<le> float64 now" using a1 nr(2) by (intro float64_mono) auto
          then show ?thesis by simp
        next
          case False
          then show ?thesis by simp
        qed
        then show ?thesis
          using ih unfolding adm upd b counted_append cnt by (simp add: zs_def)
      qed
    qed
  qed
qed

lemma float64_1700: 
  "float64 1700000000000000001 = 1700000000000000000"
  "float64 1700000000000000000 = 1700000000000000000"
  "float64 1699996400000000001 = 1699996400000000000"
  "float64 1699996400000001001 = 1699996400000001024"
  "float64 1700000000000001001 = 1700000000000001024"
  "float64 1700003600000000000 = 1700003600000000000"
  by (simp_all add: float64_rne256 rne256_def)

text \<open>
  C4, as stated: in a sequential execution with a healthy store, at most \<^verbatim>\<open>max_per_window\<close>
  calls of \<^verbatim>\<open>Allow\<close> for a recipient return \<^verbatim>\<open>(true, nil)\<close> within any rolling window of length
  \<open>W\<close>. The scores of the sorted set are doubles: a timestamp is rounded to a multiple of
  256 ns when it is stored and when it is compared. With a limit of 1 and the window of one
  hour, a call at 1700000000000000001 ns and one at 1700003600000000000 ns, one nanosecond
  less than an hour later, are both admitted: the score of the first entry is
  1700000000000000000, which the second call expires.
\<close>

theorem Allow_window_counterexample:
  "Allow_run (NewRedisRecipientLimiter 1) calls_hour_apart no_buckets
     = [(True, None), (True, None)] \<and>
   lim_maxPerHour (NewRedisRecipientLimiter 1) = 1 \<and>
   admissions ''a@b.com'' 1700000000000000000
       (1700000000000000000 + lim_window (NewRedisRecipientLimiter 1))
       calls_hour_apart (Allow_run (NewRedisRecipientLimiter 1) calls_hour_apart no_buckets)
     = 2"
  by (simp add: calls_hour_apart_def no_buckets_def Allow_bucket_healthy Let_def
        NewRedisRecipientLimiter_def Hour_def Minute_def float64_1700 ZRemRangeByScore_def
        ZAdd_def admissions_def admitted_def call_to_def call_time_def)

text \<open>
  C4, amended: in a sequential execution against a healthy store, started on an empty Redis,
  in which the clock does not go back, the members generated for a recipient are distinct
  and the timestamps, and the timestamps less the window, are between \<open>2^60\<close> and \<open>2^61\<close> ns
  (the years 2006 to 2043), for every recipient at most \<^verbatim>\<open>max_per_window\<close> calls of \<^verbatim>\<open>Allow\<close>
  within any rolling window of length \<open>W - 256 ns\<close> (after \<open>a\<close>, up to \<open>a + W - 256\<close>) return
  \<^verbatim>\<open>(true, nil)\<close>; and whenever the number of entries left after the expiry is at least
  \<^verbatim>\<open>max_per_window\<close>, \<^verbatim>\<open>Allow\<close> returns \<^verbatim>\<open>(false, nil)\<close> and the bucket holds the unexpired
  entries and nothing more.
\<close>

theorem Allow_window:
  assumes "0 \<le> lim_window lim"
    and "sorted (map call_time calls)"
    and "\<forall>c\<in>set calls. 2 ^ 60 \<le> call_time c - lim_window lim \<and> call_time c < 2 ^ 61"
    and "distinct (map call_member (filter (\<lambda>c. call_to c = recipient) calls))"
  shows "int (admissions recipient a (a + (lim_window lim - 256)) calls
                (Allow_run lim calls no_buckets))
           \<le> max 0 (lim_maxPerHour lim) \<and>
         (lim_maxPerHour lim
            \<le> ZCard (ZRemRangeByScore (float64 (now - lim_window lim)) (members b)) \<longrightarrow>
          Allow_bucket lim now randBytes None None b =
            ((False, None),
             b\<lparr>members := ZRemRangeByScore (float64 (now - lim_window lim)) (members b)\<rparr>))"
proof -
  let ?hi = "a + (lim_window lim - 256)"
  let ?n = "admissions recipient a ?hi calls (Allow_run lim calls no_buckets)"
  have "int ?n \<le> max 0 (lim_maxPerHour lim)"
  proof (cases "?n = 0")
    case True
    then show ?thesis by simp
  next
    case False
    then have "filter (admitted recipient a ?hi) (zip calls (Allow_run lim calls no_buckets)) \<noteq> []"
      by (simp add: admissions_def)
    then obtain cr where cr: "cr \<in> set (zip calls (Allow_run lim calls no_buckets))"
      "admitted recipient a ?hi cr"
      by (auto simp: filter_empty_conv)
    then have c: "fst cr \<in> set calls"
      by (metis prod.collapse set_zip_leftD)
    have t: "a < call_time (fst cr)" "call_time (fst cr) \<le> ?hi"
      using cr(2) by (simp_all add: admitted_def)
    have r: "2 ^ 60 \<le> call_time (fst cr) - lim_window lim" "call_time (fst cr) < 2 ^ 61"
      using assms(3) c by auto
    have a1: "2 ^ 60 \<le> a - 256" using t(2) r(1) by linarith
    have a2: "a + 1 < 2 ^ 61" using t(1) r(2) by linarith
    have "int (counted (float64 (a + 1)) (members (no_buckets (bucket_key recipient)))) + int ?n
            \<le> max 0 (lim_maxPerHour lim)"
      by (rule window_invariant[OF assms(1) a1 a2 assms(2,3,4)]) (simp_all add: no_buckets_def)
    then show ?thesis by simp
  qed
  then show ?thesis by (simp add: Allow_bucket_healthy Let_def ZCard_def)
qed

theorem Allow_window_witness:
  "sorted (map call_time calls_close) \<and>
   distinct (map call_member (filter (\<lambda>c. call_to c = ''a@b.com'') calls_close)) \<and>
   Allow_run (NewRedisRecipientLimiter 1) calls_close no_buckets = [(True, None), (False, None)] \<and>
   int (admissions ''a@b.com'' 1700000000000000000
          (1700000000000000000 + (lim_window (NewRedisRecipientLimiter 1) - 256)) calls_close
          (Allow_run (NewRedisRecipientLimiter 1) calls_close no_buckets)) \<le> 1 \<and>
   Allow_bucket (NewRedisRecipientLimiter 1) 1700000000000001001 [0, 0, 0, 2] None None
       \<lparr>members = [(''1700000000000000001:00000001'', 1700000000000000000)], ttl = None\<rparr>
     = ((False, None),
        \<lparr>members = [(''1700000000000000001:00000001'', 1700000000000000000)], ttl = None\<rparr>)"
proof -
  let ?lim = "NewRedisRecipientLimiter 1"
  have h1: "0 \<le> lim_window ?lim"
    by (simp add: NewRedisRecipientLimiter_def Hour_def Minute_def)
  have h2: "sorted (map call_time calls_close)"
    by (simp add: calls_close_def call_time_def)
  have h3: "\<forall>c\<in>set calls_close. 2 ^ 60 \<le> call_time c - lim_window ?lim \<and> call_time c < 2 ^ 61"
    by (simp add: calls_close_def call_time_def NewRedisRecipientLimiter_def Hour_def Minute_def)
  have h4: "distinct (map call_member (filter (\<lambda>c. call_to c = ''a@b.com'') calls_close))"
    by (simp add: calls_close_def call_to_def call_member_def Allow_member_def itoa_def)
  have run: "Allow_run ?lim calls_close no_buckets = [(True, None), (False, None)]"
    by (simp add: calls_close_def no_buckets_def Allow_bucket_healthy Let_def
        NewRedisRecipientLimiter_def Hour_def Minute_def float64_1700 ZRemRangeByScore_def
        ZAdd_def)
  show ?thesis
    using h2 h4 run
      Allow_window [OF h1 h2 h3 h4, of 1700000000000000000 1700000000000001001
        "\<lparr>members = [(''1700000000000000001:00000001'', 1700000000000000000)], ttl = None\<rparr>"
        "[0, 0, 0, 2]"]
    by (simp add: NewRedisRecipientLimiter_def Hour_def Minute_def float64_1700
          ZRemRangeByScore_def ZCard_def)
qed

subsection \<open>Store: status updates\<close>

lemma set_column_ProviderID:
  "fst cv \<noteq> ''provider_id'' \<Longrightarrow> row_ProviderID (set_column cv r) = row_ProviderID r"
  by (cases cv; cases "snd cv") auto

lemma set_column_ErrorMessage:
  "fst cv \<noteq> ''error_message'' \<Longrightarrow> row_ErrorMessage (set_column cv r) = row_ErrorMessage r"
  by (cases cv; cases "snd cv") auto

lemma fold_set_column_ProviderID:
  "''provider_id'' \<notin> fst ` set upd \<Longrightarrow> row_ProviderID (fold set_column upd r) = row_ProviderID r"
  by (induction upd arbitrary: r) (auto simp: set_column_ProviderID)

lemma fold_set_column_ErrorMessage:
  "''error_message'' \<notin> fst ` set upd \<Longrightarrow> row_ErrorMessage (fold set_column upd r) = row_ErrorMessage r"
  by (induction upd arbitrary: r) (auto simp: set_column_ErrorMessage)

lemma db_update_ProviderID:
  "''provider_id'' \<notin> fst ` set upd \<Longrightarrow> map row_ProviderID (db_update upd sel tbl) = map row_ProviderID tbl"
  by (simp add: db_update_def fold_set_column_ProviderID)

lemma db_update_ErrorMessage:
  "''error_message'' \<notin> fst ` set upd \<Longrightarrow> map row_ErrorMessage (db_update upd sel tbl) = map row_ErrorMessage tbl"
  by (simp add: db_update_def fold_set_column_ErrorMessage)

lemma update_no_provider_id:
  "''provider_id'' \<notin> fst ` set (UpdateStatus_body now status '''' errMsg)"
  by (auto simp: UpdateStatus_body_def)

lemma update_no_error_message:
  "''error_message'' \<notin> fst ` set (UpdateStatus_body now status providerID '''')"
  by (auto simp: UpdateStatus_body_def)

lemma table_UpdateStatus:
  "table (snd (SupabaseStore_UpdateStatus i status providerID errMsg w)) =
     (case fault_at w (step w) of
        Some err \<Rightarrow> table w
      | None \<Rightarrow> db_update (UpdateStatus_body (now_at w (step w)) status providerID errMsg)
                  (\<lambda>r. row_ID r = i) (table w))"
  by (simp add: SupabaseStore_UpdateStatus_def tick_def Let_def split: option.splits)

text \<open>
  C9: when \<^verbatim>\<open>UpdateStatus\<close> is called with an empty \<^verbatim>\<open>providerID\<close> (an empty \<^verbatim>\<open>errMsg\<close>), the
  column \<^verbatim>\<open>provider_id\<close> (\<^verbatim>\<open>error_message\<close>) is not in the update and every row keeps the value
  it had. In particular the update to \<^verbatim>\<open>sent\<close> that the worker makes after a successful send
  keeps the error message of an earlier failed attempt, and the reset to \<^verbatim>\<open>queued\<close> that the
  reaper makes keeps both the error message and the provider id.
\<close>

theorem UpdateStatus_omits_empty:
  "(providerID = '''' \<longrightarrow>
      ''provider_id'' \<notin> fst ` set (UpdateStatus_body now status providerID errMsg) \<and>
      map row_ProviderID (table (snd (SupabaseStore_UpdateStatus i status providerID errMsg w)))
        = map row_ProviderID (table w)) \<and>
   (errMsg = '''' \<longrightarrow>
      ''error_message'' \<notin> fst ` set (UpdateStatus_body now status providerID errMsg) \<and>
      map row_ErrorMessage (table (snd (SupabaseStore_UpdateStatus i status providerID errMsg w)))
        = map row_ErrorMessage (table w)) \<and>
   map row_ErrorMessage (table (snd (SupabaseStore_UpdateStatus i StatusSent providerID '''' w)))
     = map row_ErrorMessage (table w) \<and>
   map row_ErrorMessage (table (snd (SupabaseStore_UpdateStatus i StatusQueued '''' '''' w)))
     = map row_ErrorMessage (table w) \<and>
   map row_ProviderID (table (snd (SupabaseStore_UpdateStatus i StatusQueued '''' '''' w)))
     = map row_ProviderID (table w)"
  by (auto simp: table_UpdateStatus update_no_provider_id update_no_error_message
        db_update_ProviderID db_update_ErrorMessage split: option.splits)

theorem UpdateStatus_omits_empty_witness:
  "table (snd (SupabaseStore_UpdateStatus ''id-1'' StatusQueued '''' '''' (example_world (\<lambda>k. None))))
     = [example_row\<lparr>row_Status := ''queued'', row_UpdatedAt := Some 2200000000000\<rparr>] \<and>
   ''provider_id'' \<notin> fst ` set (UpdateStatus_body 0 StatusQueued '''' '''') \<and>
   ''error_message'' \<notin> fst ` set (UpdateStatus_body 0 StatusQueued '''' '''') \<and>
   map row_ProviderID
     (table (snd (SupabaseStore_UpdateStatus ''id-1'' StatusQueued '''' '''' (example_world (\<lambda>k. None)))))
     = [None] \<and>
   map row_ErrorMessage
     (table (snd (SupabaseStore_UpdateStatus ''id-1'' StatusQueued '''' '''' (example_world (\<lambda>k. None)))))
     = [Some ''provider error: timeout'']"
  using UpdateStatus_omits_empty [where providerID = "''''" and errMsg = "''''" and now = 0
      and status = StatusQueued and i = "''id-1''" and w = "example_world (\<lambda>k. None)"]
  by (simp add: table_UpdateStatus example_world_def example_row_def db_update_def
        UpdateStatus_body_def StatusSent_def StatusQueued_def)

subsection \<open>Reaper\<close>

lemma fold_set_column_reset:
  "fold set_column (UpdateStatus_body now StatusQueued '''' '''') r
     = r\<lparr>row_Status := StatusQueued, row_UpdatedAt := Some now\<rparr>"
  by (simp add: UpdateStatus_body_def StatusQueued_def StatusSent_def)

lemma sweep_record_worker:
  "sweep_record (worker_Reaper maxRetry cfg) notifLog w =
     (case fault_at w (step w) of
        Some err \<Rightarrow>
          (False,
           slog_Error ''reaper: failed to reset status''
             [(''log_id'', log_ID notifLog),
              (''error'', err_Error (WrapError ''updating notification status: '' err))]
             (tick w))
      | None \<Rightarrow>
          (let wa = (tick w)\<lparr>table :=
                       map (\<lambda>r. if row_ID r = log_ID notifLog
                                 then r\<lparr>row_Status := StatusQueued,
                                        row_UpdatedAt := Some (now_at w (step w))\<rparr>
                                 else r) (table w)\<rparr>
           in case fault_at w (Suc (step w)) of
                Some err \<Rightarrow>
                  (False,
                   slog_Error ''reaper: failed to re-enqueue task''
                     [(''log_id'', log_ID notifLog),
                      (''error'', err_Error (WrapError ''enqueuing task: '' err))]
                     (tick wa))
              | None \<Rightarrow>
                  (True,
                   slog_Info ''reaper: recovered stale task''
                     [(''log_id'', log_ID notifLog),
                      (''original_status'', log_Status notifLog)]
                     ((tick wa)\<lparr>tasks := tasks w @ [(log_ID notifLog, maxRetry)]\<rparr>))))"
  by (simp add: sweep_record_def worker_Reaper_def NewReaper_def Let_def SupabaseStore_def
        SupabaseStore_UpdateStatus_def queueEnqueuer_def queue_EnqueueSendNotification_def
        db_update_def fold_set_column_reset tick_def
      split: option.splits cong: if_cong)

lemma worker_Reaper_store: "rp_store (worker_Reaper maxRetry cfg) = SupabaseStore"
  by (simp add: worker_Reaper_def NewReaper_def Let_def)

lemma worker_Reaper_defaults:
  "rp_config (worker_Reaper maxRetry \<lparr>Interval = 0, StaleThreshold = 0, BatchSize = 0\<rparr>)
     = \<lparr>Interval = 5 * Minute, StaleThreshold = 10 * Minute, BatchSize = 50\<rparr>"
  by (simp add: worker_Reaper_def NewReaper_def Let_def)

text \<open>
  C5, as stated: for each stale record it recovers, the reaper sets the status to \<^verbatim>\<open>queued\<close>,
  clears the error message, updates \<^verbatim>\<open>updated_at\<close> and then enqueues the task again. The
  reaper resets the status with an empty error message, which \<^verbatim>\<open>UpdateStatus\<close> leaves out of
  the update: a sweep over a table whose one stale record has an error message recovers the
  record, and the message is still there.
\<close>

theorem sweep_error_message_kept_counterexample:
  "table (sweep (worker_Reaper 5 \<lparr>Interval = 0, StaleThreshold = 0, BatchSize = 0\<rparr>)
            (example_world (\<lambda>k. None)))
     = [example_row\<lparr>row_Status := ''queued'', row_UpdatedAt := Some 2200000000002\<rparr>] \<and>
   tasks (sweep (worker_Reaper 5 \<lparr>Interval = 0, StaleThreshold = 0, BatchSize = 0\<rparr>)
            (example_world (\<lambda>k. None)))
     = [(''id-1'', 5)] \<and>
   map row_ErrorMessage
     (table (sweep (worker_Reaper 5 \<lparr>Interval = 0, StaleThreshold = 0, BatchSize = 0\<rparr>)
               (example_world (\<lambda>k. None))))
     = [Some ''provider error: timeout'']"
  by (simp add: sweep_def sweep_record_worker time_Now_def tick_def example_world_def
        example_row_def worker_Reaper_store worker_Reaper_defaults SupabaseStore_def
        SupabaseStore_ListStale_def Minute_def Let_def StatusQueued_def StatusProcessing_def
        rowToLog_def slog_Warn_def slog_Info_def)

text \<open>
  C5, amended: for each stale record it recovers, the reaper sets the status to \<^verbatim>\<open>queued\<close>
  and \<^verbatim>\<open>updated_at\<close> to the time of the reset, leaves the error message, the provider id and
  every other column as they were, and then enqueues the task again by the id of the
  record; when the reset fails, the record is not recovered and nothing is enqueued.
\<close>

theorem sweep_record_recovers:
  "(sweep_record (worker_Reaper maxRetry cfg) notifLog w = (True, w') \<longrightarrow>
      table w' = map (\<lambda>r. if row_ID r = log_ID notifLog
                           then r\<lparr>row_Status := StatusQueued,
                                  row_UpdatedAt := Some (now_at w (step w))\<rparr>
                           else r) (table w) \<and>
      map row_ErrorMessage (table w') = map row_ErrorMessage (table w) \<and>
      map row_ProviderID (table w') = map row_ProviderID (table w) \<and>
      tasks w' = tasks w @ [(log_ID notifLog, maxRetry)]) \<and>
   (fault_at w (step w) \<noteq> None \<longrightarrow>
      \<not> fst (sweep_record (worker_Reaper maxRetry cfg) notifLog w) \<and>
      table (snd (sweep_record (worker_Reaper maxRetry cfg) notifLog w)) = table w \<and>
      tasks (snd (sweep_record (worker_Reaper maxRetry cfg) notifLog w)) = tasks w)"
proof -
  have m1: "map row_ErrorMessage (map (\<lambda>r. if row_ID r = i
                           then r\<lparr>row_Status := s, row_UpdatedAt := t\<rparr> else r) tbl)
            = map row_ErrorMessage tbl" for i s t and tbl :: "supabaseRow list"
    by (induction tbl) auto
  have m2: "map row_ProviderID (map (\<lambda>r. if row_ID r = i
                           then r\<lparr>row_Status := s, row_UpdatedAt := t\<rparr> else r) tbl)
            = map row_ProviderID tbl" for i s t and tbl :: "supabaseRow list"
    by (induction tbl) auto
  show ?thesis
    by (auto simp: sweep_record_worker Let_def slog_Info_def slog_Error_def tick_def m1 m2
        split: option.splits)
qed

theorem sweep_record_recovers_witness:
  "sweep_record (worker_Reaper 5 \<lparr>Interval = 0, StaleThreshold = 0, BatchSize = 0\<rparr>)
       (rowToLog example_row) (example_world (\<lambda>k. None))
     = (True,
        slog_Info ''reaper: recovered stale task''
          [(''log_id'', ''id-1''), (''original_status'', ''processing'')]
          ((example_world (\<lambda>k. None))
             \<lparr>step := 2,
              table := [example_row\<lparr>row_Status := ''queued'',
                                    row_UpdatedAt := Some 2200000000000\<rparr>],
              tasks := [(''id-1'', 5)]\<rparr>)) \<and>
   fault_at (example_world redis_down) (step ((example_world redis_down)\<lparr>step := 1\<rparr>)) \<noteq> None \<and>
   \<not> fst (sweep_record (worker_Reaper 5 \<lparr>Interval = 0, StaleThreshold = 0, BatchSize = 0\<rparr>)
           (rowToLog example_row) ((example_world redis_down)\<lparr>step := 1\<rparr>))"
  using sweep_record_recovers [where maxRetry = 5
      and cfg = "\<lparr>Interval = 0, StaleThreshold = 0, BatchSize = 0\<rparr>"
      and notifLog = "rowToLog example_row" and w = "example_world (\<lambda>k. None)"
      and w' = "slog_Info ''reaper: recovered stale task''
          [(''log_id'', ''id-1''), (''original_status'', ''processing'')]
          ((example_world (\<lambda>k. None))
             \<lparr>step := 2,
              table := [example_row\<lparr>row_Status := ''queued'',
                                    row_UpdatedAt := Some 2200000000000\<rparr>],
              tasks := [(''id-1'', 5)]\<rparr>)"]
    sweep_record_recovers [where maxRetry = 5
      and cfg = "\<lparr>Interval = 0, StaleThreshold = 0, BatchSize = 0\<rparr>"
      and notifLog = "rowToLog example_row" and w = "(example_world redis_down)\<lparr>step := 1\<rparr>"]
  by (simp add: sweep_record_worker example_world_def example_row_def rowToLog_def
        tick_def Let_def StatusQueued_def slog_Info_def redis_down_def)

subsection \<open>Worker: unknown record\<close>

text \<open>
  C6, as stated: for a task whose record the store does not have (\<^verbatim>\<open>GetByID\<close> returns no
  record and no error), \<^verbatim>\<open>ProcessTask\<close> returns a non-retryable error, so that the queue drops
  the task. The error returned is a plain \<^verbatim>\<open>fmt.Errorf\<close> error: it does not wrap
  \<^verbatim>\<open>asynq.SkipRetry\<close>, and the queue retries the task like after any other failure.
\<close>

theorem ProcessTask_missing_record_counterexample:
  "GetByID empty_Store ''id-9'' (example_world (\<lambda>k. None))
     = ((None, None), example_world (\<lambda>k. None)) \<and>
   fst (ProcessTask (NewWorker empty_Store fixed_Renderer [fixed_Provider]) ''id-9''
          (example_world (\<lambda>k. None)))
     = Some (ErrorString ''notification log not found: id-9'') \<and>
   \<not> errors_Is_SkipRetry (ErrorString ''notification log not found: id-9'') \<and>
   asynq_retries (ErrorString ''notification log not found: id-9'') 0 5"
  by (simp add: empty_Store_def ProcessTask_def NewWorker_def asynq_retries_def)

text \<open>
  C6, amended: for a task whose record the store does not have (\<^verbatim>\<open>GetByID\<close> returns no
  record and no error), \<^verbatim>\<open>ProcessTask\<close> logs and returns the plain error "notification log not
  found: id" and does nothing else; the error carries no mark against retrying, so the
  queue retries the task as long as retries remain.
\<close>

theorem ProcessTask_missing_record:
  assumes "GetByID (wk_store wk) logID w = ((None, None), w')"
  shows "ProcessTask wk logID w =
           (Some (ErrorString (''notification log not found: '' @ logID)),
            slog_Error ''notification log not found'' [(''log_id'', logID)] w')
         \<and> \<not> errors_Is_SkipRetry (ErrorString (''notification log not found: '' @ logID))
         \<and> (retried < maxRetry \<longrightarrow>
              asynq_retries (ErrorString (''notification log not found: '' @ logID)) retried maxRetry)"
  using assms by (simp add: ProcessTask_def asynq_retries_def)

theorem ProcessTask_missing_record_witness:
  "GetByID (wk_store (NewWorker empty_Store fixed_Renderer [fixed_Provider])) ''id-9''
       (example_world (\<lambda>k. None))
     = ((None, None), example_world (\<lambda>k. None)) \<and> (0 :: int) < 5 \<and>
   ProcessTask (NewWorker empty_Store fixed_Renderer [fixed_Provider]) ''id-9''
       (example_world (\<lambda>k. None))
     = (Some (ErrorString ''notification log not found: id-9''),
        slog_Error ''notification log not found'' [(''log_id'', ''id-9'')]
          (example_world (\<lambda>k. None))) \<and>
   asynq_retries (ErrorString ''notification log not found: id-9'') 0 5"
proof -
  have h: "GetByID (wk_store (NewWorker empty_Store fixed_Renderer [fixed_Provider])) ''id-9''
       (example_world (\<lambda>k. None)) = ((None, None), example_world (\<lambda>k. None))"
    by (simp add: NewWorker_def empty_Store_def)
  show ?thesis
    using h ProcessTask_missing_record [OF h, of 0 5] by simp
qed

subsection \<open>Worker: the update after a successful send fails\<close>

lemma UpdateStatus_failure_table:
  "SupabaseStore_UpdateStatus i status providerID errMsg w = (Some e, w') \<Longrightarrow> table w' = table w"
  by (auto simp: SupabaseStore_UpdateStatus_def Let_def tick_def split: option.splits)

text \<open>
  C10: when the record is found, its type and channel are known, the template renders and
  the provider's \<^verbatim>\<open>Send\<close> succeeds, \<^verbatim>\<open>ProcessTask\<close> returns nil even if the update of the
  record to \<^verbatim>\<open>sent\<close> fails: the failure is logged and nothing else. With the Supabase store
  the failed update leaves the table as it was after the send, so the record keeps the
  status it had.
\<close>

theorem ProcessTask_sent_update_fails:
  assumes "GetByID (wk_store wk) logID w = ((Some notifLog, None), wa)"
    and "UpdateStatus (wk_store wk) logID StatusProcessing '''' '''' wa = (err, wb)"
    and "wc = (case err of
                 Some e \<Rightarrow>
                   slog_Error ''failed to update status to processing''
                     [(''log_id'', logID), (''error'', err_Error e)] wb
               | None \<Rightarrow> wb)"
    and "IsValidType (log_Type notifLog)"
    and "wk_providers wk (log_Channel notifLog) = Some provider"
    and "Render (wk_renderer wk) (log_Type notifLog) (log_TemplateData notifLog) wc
           = (((subject, html, text), None), wd)"
    and "Send provider \<lparr>msg_To = log_Recipient notifLog, msg_Subject = subject,
                         msg_HTML = html, msg_Text = text\<rparr> wd
           = ((providerID, None), we)"
    and "UpdateStatus (wk_store wk) logID StatusSent providerID '''' we = (Some e, w')"
  shows "ProcessTask wk logID w =
           (None,
            slog_Info ''notification sent''
              [(''log_id'', logID), (''channel'', log_Channel notifLog),
               (''type'', log_Type notifLog), (''to'', log_Recipient notifLog),
               (''provider_id'', providerID)]
              (slog_Error ''failed to update status to sent''
                 [(''log_id'', logID), (''error'', err_Error e)] w'))
         \<and> (wk_store wk = SupabaseStore \<longrightarrow>
              table w' = table we \<and> table (snd (ProcessTask wk logID w)) = table we)"
proof -
  have eq: "ProcessTask wk logID w =
           (None,
            slog_Info ''notification sent''
              [(''log_id'', logID), (''channel'', log_Channel notifLog),
               (''type'', log_Type notifLog), (''to'', log_Recipient notifLog),
               (''provider_id'', providerID)]
              (slog_Error ''failed to update status to sent''
                 [(''log_id'', logID), (''error'', err_Error e)] w'))"
    using assms by (simp add: ProcessTask_def ProcessTask_send_def Let_def)
  have "table w' = table we" if "wk_store wk = SupabaseStore"
    using assms(8) that by (simp add: SupabaseStore_def UpdateStatus_failure_table)
  then show ?thesis
    unfolding eq by (simp add: slog_Info_def slog_Error_def)
qed

theorem ProcessTask_sent_update_fails_witness:
  "fst (ProcessTask (NewWorker SupabaseStore fixed_Renderer [fixed_Provider]) ''id-1''
          (example_world update_sent_fails)) = None \<and>
   map row_Status (table (snd (ProcessTask (NewWorker SupabaseStore fixed_Renderer [fixed_Provider])
          ''id-1'' (example_world update_sent_fails)))) = [''processing''] \<and>
   map row_ProviderID (table (snd (ProcessTask (NewWorker SupabaseStore fixed_Renderer [fixed_Provider])
          ''id-1'' (example_world update_sent_fails)))) = [None]"
proof -
  let ?wk = "NewWorker SupabaseStore fixed_Renderer [fixed_Provider]"
  let ?w = "example_world update_sent_fails"
  let ?wa = "tick ?w"
  let ?wb = "(tick ?wa)\<lparr>table := [example_row\<lparr>row_Status := ''processing'',
                                      row_UpdatedAt := Some 2200000000001\<rparr>]\<rparr>"
  let ?e = "WrapError ''updating notification status: '' (ErrorString ''connection reset'')"
  have h1: "GetByID (wk_store ?wk) ''id-1'' ?w = ((Some (rowToLog example_row), None), ?wa)"
    by (simp add: NewWorker_def SupabaseStore_def SupabaseStore_GetByID_def example_world_def
          update_sent_fails_def example_row_def)
  have h2: "UpdateStatus (wk_store ?wk) ''id-1'' StatusProcessing '''' '''' ?wa = (None, ?wb)"
    by (simp add: NewWorker_def SupabaseStore_def SupabaseStore_UpdateStatus_def example_world_def
          update_sent_fails_def tick_def db_update_def UpdateStatus_body_def
          StatusProcessing_def StatusSent_def example_row_def)
  have h3: "?wb = (case None :: go_error option of
                 Some e \<Rightarrow>
                   slog_Error ''failed to update status to processing''
                     [(''log_id'', ''id-1''), (''error'', err_Error e)] ?wb
               | None \<Rightarrow> ?wb)" by simp
  have h4: "IsValidType (log_Type (rowToLog example_row))"
    by (simp add: IsValidType_def validTypes_def rowToLog_def example_row_def)
  have h5: "wk_providers ?wk (log_Channel (rowToLog example_row)) = Some fixed_Provider"
    by (simp add: NewWorker_def rowToLog_def example_row_def fixed_Provider_def)
  have h6: "Render (wk_renderer ?wk) (log_Type (rowToLog example_row))
              (log_TemplateData (rowToLog example_row)) ?wb
           = (((''Subject'', ''<p>Hello</p>'', ''Hello''), None), ?wb)"
    by (simp add: NewWorker_def fixed_Renderer_def)
  have h7: "Send fixed_Provider \<lparr>msg_To = log_Recipient (rowToLog example_row),
                msg_Subject = ''Subject'', msg_HTML = ''<p>Hello</p>'', msg_Text = ''Hello''\<rparr> ?wb
           = ((''msg-1'', None), ?wb)"
    by (simp add: fixed_Provider_def)
  have h8: "UpdateStatus (wk_store ?wk) ''id-1'' StatusSent ''msg-1'' '''' ?wb = (Some ?e, tick ?wb)"
    by (simp add: NewWorker_def SupabaseStore_def SupabaseStore_UpdateStatus_def example_world_def
          update_sent_fails_def tick_def)
  have s: "wk_store ?wk = SupabaseStore" by (simp add: NewWorker_def)
  show ?thesis
    using ProcessTask_sent_update_fails [OF h1 h2 h3 h4 h5 h6 h7 h8] s
    by (simp add: tick_def slog_Info_def slog_Error_def example_row_def)
qed

subsection \<open>HTTP error handler\<close>

lemma errors_As_wrapped: "errors_As k (wrapped ps e) = errors_As k e"
  by (induction ps) (simp_all add: has_kind_def)

lemma errors_As_ProviderError:
  "errors_As k (ProviderError p m) = (if k = KProvider then Some (ProviderError p m) else None)"
  by (simp add: has_kind_def)

text \<open>
  A chain has one typed error at most, its last error: when \<^verbatim>\<open>errors.As\<close> finds a
  \<^verbatim>\<open>ProviderError\<close> in a chain, it finds no error of another kind there.
\<close>

lemma chain_provider_only:
  "is_chain e \<Longrightarrow> errors_As KProvider e \<noteq> None \<Longrightarrow> k \<noteq> KProvider \<Longrightarrow> errors_As k e = None"
  by (induction e) (auto simp: has_kind_def)

text \<open>
  C7: whenever \<^verbatim>\<open>HandleError\<close> is given an error whose chain contains a \<^verbatim>\<open>ProviderError\<close>,
  however many times it is wrapped, it answers with status 502 and the fixed message
  "notification delivery failed": the answer does not depend on the provider, on the
  message of the provider error or on the texts of the wrapping errors.
\<close>

theorem HandleError_provider:
  "(is_chain err \<and> errors_As KProvider err \<noteq> None
      \<longrightarrow> HandleError err = Error 502 ''notification delivery failed'') \<and>
   HandleError (wrapped ps (ProviderError p m)) = Error 502 ''notification delivery failed''"
proof -
  have "HandleError err = Error 502 ''notification delivery failed''"
    if "is_chain err" "errors_As KProvider err \<noteq> None"
  proof -
    have "errors_As KNotFound err = None" "errors_As KValidation err = None"
      "errors_As KUnauthorized err = None"
      using that by (simp_all add: chain_provider_only del: errors_As.simps)
    then show ?thesis
      using that(2) by (auto simp: HandleError_def StatusBadGateway_def simp del: errors_As.simps)
  qed
  moreover have "HandleError (wrapped ps (ProviderError p m))
                   = Error 502 ''notification delivery failed''"
    by (simp add: HandleError_def errors_As_wrapped errors_As_ProviderError StatusBadGateway_def
          del: errors_As.simps)
  ultimately show ?thesis by blast
qed

theorem HandleError_provider_witness:
  "is_chain (WrapError ''sending: '' (WrapError ''email: '' (ProviderError ''email'' ''boom''))) \<and>
   errors_As KProvider
      (WrapError ''sending: '' (WrapError ''email: '' (ProviderError ''email'' ''boom''))) \<noteq> None \<and>
   HandleError (WrapError ''sending: '' (WrapError ''email: '' (ProviderError ''email'' ''boom'')))
     = Error 502 ''notification delivery failed''"
proof -
  let ?e = "WrapError ''sending: '' (WrapError ''email: '' (ProviderError ''email'' ''boom''))"
  have h: "is_chain ?e \<and> errors_As KProvider ?e \<noteq> None" by (simp add: has_kind_def)
  show ?thesis
    using h HandleError_provider [of ?e] by blast
qed

subsection \<open>Retry delay\<close>

lemma sint_word_of_int_64:
  "- (2 ^ 63) \<le> x \<Longrightarrow> x < 2 ^ 63 \<Longrightarrow> sint (word_of_int x :: int64) = x"
  by (simp add: signed_of_int signed_take_bit_int_eq_self)

lemma shl_small: "k < 64 \<Longrightarrow> shl 1 (of_nat k) = (2::int64) ^ k"
proof -
  assume k: "k < 64"
  then have u: "unat (of_nat k :: int64) = k" by (simp add: unat_of_nat)
  have "\<not> (64::int64) \<le> of_nat k" using u k by (simp add: word_le_nat_alt)
  then show ?thesis using u by (simp add: shl_def push_bit_eq_mult)
qed

lemma RetryDelayFunc_of_nat:
  assumes "k < 29"
  shows "sint (RetryDelayFunc (of_nat (Suc k))) = 30 * 2 ^ k * 1000000000"
proof -
  define y :: int where "y = 2 ^ k"
  define x :: int where "x = 30 * y * 1000000000"
  have "(2::int) ^ k \<le> 2 ^ 28" using assms by (intro power_increasing) auto
  then have y: "0 \<le> y" "y \<le> 268435456" by (simp_all add: y_def)
  have b: "- (2 ^ 63) \<le> x" "x < 2 ^ 63" using y by (simp_all add: x_def)
  have "RetryDelayFunc (of_nat (Suc k)) = word_of_int x"
    using assms by (simp add: RetryDelayFunc_def Second_def shl_small x_def y_def)
  then show ?thesis using sint_word_of_int_64[OF b] by (simp only: x_def y_def)
qed

text \<open>
  The value of the function at an argument \<open>n\<close> from 1 to 29 is \<open>30 * 2^(n-1)\<close> seconds, in
  nanoseconds.
\<close>

lemma RetryDelayFunc_argument:
  assumes "1 \<le> sint n" and "sint n \<le> 29"
  shows "sint (RetryDelayFunc n) = 30 * 2 ^ nat (sint n - 1) * 1000000000"
proof -
  define k where "k = nat (sint n - 1)"
  have k: "k < 29" using assms by (simp add: k_def)
  have "n = word_of_int (sint n)" by simp
  also have "sint n = int (Suc k)" using assms by (simp add: k_def)
  finally have "n = of_nat (Suc k)" by (simp only: of_int_of_nat_eq)
  then have "sint (RetryDelayFunc n) = 30 * 2 ^ k * 1000000000"
    using RetryDelayFunc_of_nat[OF k] by (simp only:)
  then show ?thesis by (simp only: k_def)
qed

lemma shl_minus_one: "shl 1 (- 1) = 0"
  by (simp add: shl_def)

lemma shl_args: "shl 1 0 = 1" "shl 1 1 = 2" "shl 1 2 = 4" "shl 1 3 = 8"
  using shl_small[of 0] shl_small[of 1] shl_small[of 2] shl_small[of 3] by simp_all

text \<open>
  C8: the delay of the n-th retry should be \<open>30 * 2^(n-1)\<close> seconds: 30 s, 60 s, 120 s, 240 s,
  480 s, as the comment in the function says too. The code does not do this. The server
  calls the function with the number of retries already made, 0 before the first retry,
  where the shift count \<^verbatim>\<open>uint(n-1)\<close> is \<open>2^64 - 1\<close> and the shift gives 0: the delay before
  the first retry is 0 s, and the delays before the first five retries are 0 s, 30 s, 60 s,
  120 s and 240 s.
\<close>

theorem retry_delay_first_five:
  "sint (RetryDelayFunc 0) = 0 \<and>
   sint (retry_delay 1) = 0 \<and>
   sint (retry_delay 1) \<noteq> 30 * 2 ^ (1 - 1) * 1000000000 \<and>
   map (\<lambda>n. sint (retry_delay n)) [1, 2, 3, 4, 5]
     = [0, 30 * 1000000000, 60 * 1000000000, 120 * 1000000000, 240 * 1000000000]"
  by (simp add: retry_delay_def RetryDelayFunc_def shl_minus_one shl_args Second_def)

end
